theory Spec2Isabelle
  imports Main "HOL-Library.Sublist"
begin

section \<open>LogCast server: data model\<close>

text \<open>
  The development embeds \<^verbatim>\<open>src/server.py\<close>. The server keeps one process-wide set
  \<^verbatim>\<open>clients\<close> of TLS sockets and one \<^verbatim>\<open>client_lock\<close>; three kinds of threads work on
  them: the accept loop of \<^verbatim>\<open>start_server\<close>, one \<^verbatim>\<open>handle_client\<close> per connection,
  and the two daemons \<^verbatim>\<open>send_keep_alive\<close> and \<^verbatim>\<open>watch_log_file_by_inode\<close>.

  Sockets, peers and inodes are identified by numbers. Everything a function does to the
  outside world (log records, sleeps, socket and file calls, lock operations, accesses to
  the registry) is appended to a trace in program order, so that the order of effects can
  be stated. What the outside world answers (whether a send fails, what \<^verbatim>\<open>os.stat\<close>
  returns, what bytes arrive) is an argument of the function that asks.
\<close>

type_synonym conn = nat
type_synonym peer = nat
type_synonym inode = nat

text \<open>
  The exceptions that the calls of the program raise. All of them derive from Python's
  \<^verbatim>\<open>Exception\<close>. \<^verbatim>\<open>socket.error\<close> is an alias of \<^verbatim>\<open>OSError\<close>; \<^verbatim>\<open>BrokenPipeError\<close>,
  \<^verbatim>\<open>ConnectionResetError\<close>, \<^verbatim>\<open>FileNotFoundError\<close>, \<^verbatim>\<open>PermissionError\<close> and
  \<^verbatim>\<open>ssl.SSLError\<close> are subclasses of it. \<^verbatim>\<open>KeyboardInterrupt\<close> is not an \<^verbatim>\<open>Exception\<close>
  and reaches the main thread only; it is an outcome of \<^verbatim>\<open>accept\<close> below.
\<close>

datatype exn =
    BrokenPipeError
  | ConnectionResetError
  | OSError
  | SSLError
  | FileNotFoundError
  | PermissionError
  | KeyError
  | ValueError
  | AttributeError
  | UnboundLocalError
  | UnicodeDecodeError

fun is_OSError :: "exn \<Rightarrow> bool" where
  "is_OSError BrokenPipeError = True"
| "is_OSError ConnectionResetError = True"
| "is_OSError OSError = True"
| "is_OSError SSLError = True"
| "is_OSError FileNotFoundError = True"
| "is_OSError PermissionError = True"
| "is_OSError KeyError = False"
| "is_OSError ValueError = False"
| "is_OSError AttributeError = False"
| "is_OSError UnboundLocalError = False"
| "is_OSError UnicodeDecodeError = False"

fun is_SSLError :: "exn \<Rightarrow> bool" where
  "is_SSLError SSLError = True"
| "is_SSLError BrokenPipeError = False"
| "is_SSLError ConnectionResetError = False"
| "is_SSLError OSError = False"
| "is_SSLError FileNotFoundError = False"
| "is_SSLError PermissionError = False"
| "is_SSLError KeyError = False"
| "is_SSLError ValueError = False"
| "is_SSLError AttributeError = False"
| "is_SSLError UnboundLocalError = False"
| "is_SSLError UnicodeDecodeError = False"

datatype lock = client_lock | fresh_lock

datatype level = INFO | WARNING | ERROR

datatype fanout_kind = KeepAlive | Alert

text \<open>
  The two sleeps of the program, \<^verbatim>\<open>time.sleep(CONFIG[...])\<close>. The configured intervals are
  taken to be non-negative (the defaults are 2 and 1), so that \<^verbatim>\<open>time.sleep\<close> returns.
\<close>

datatype interval = keep_alive_interval | monitor_poll_interval

text \<open>One constructor for each \<^verbatim>\<open>logging\<close> call of the source, with the values it formats.\<close>

datatype logmsg =
    SendFailed fanout_kind peer exn
  | UnexpectedClientError peer exn
  | LogFileNotFound
  | FileReplaced
  | MonitoringInode inode
  | KeywordFound string
  | WatchError exn
  | ClientConnected peer
  | ClientDisconnected peer
  | ReceivedData peer string
  | ClientError peer exn
  | ConnectionFrom peer
  | SecureConnection peer
  | SSLErrorWith peer exn
  | ShuttingDown
  | ServerSocketClosed

text \<open>
  \<open>fresh_lock\<close> stands for a lock object made on the spot by \<^verbatim>\<open>threading.Lock()\<close>.
  \<open>RegList\<close> is \<^verbatim>\<open>list(clients)\<close>, \<open>RegContains\<close> is \<^verbatim>\<open>client_socket in clients\<close>.
  \<open>SendAll\<close> records the call of \<^verbatim>\<open>sendall\<close>, whether it succeeds or raises.
\<close>

datatype event =
    Log level logmsg
  | Sleep interval
  | Acquire lock
  | Release lock
  | RegList
  | RegAdd conn
  | RegRemove conn
  | RegContains conn
  | SendAll conn string
  | CloseConn conn
  | CloseRaw nat
  | CloseServerSocket
  | StartThread conn
  | FileClose
  | FileOpen inode
  | FileSeekEnd nat
  | FileReadLine nat string

record server =
  clients :: "conn set"
  trace :: "event list"

definition emit :: "event \<Rightarrow> server \<Rightarrow> server" where
  "emit e s = s\<lparr>trace := trace s @ [e]\<rparr>"

text \<open>What the network answers: the outcome of \<^verbatim>\<open>sendall\<close> and of \<^verbatim>\<open>getpeername\<close>.\<close>

record net =
  sendall :: "conn \<Rightarrow> string \<Rightarrow> exn option"
  getpeername :: "conn \<Rightarrow> exn + peer"

section \<open>The registry and the fan-out loops\<close>

text \<open>
  \<^verbatim>\<open>clients.remove(x)\<close> on a Python set raises \<^verbatim>\<open>KeyError\<close> when \<open>x\<close> is not a member.
\<close>

definition registry_remove :: "conn \<Rightarrow> server \<Rightarrow> exn option \<times> server" where
  "registry_remove c s =
     (if c \<in> clients s
      then (None, (emit (RegRemove c) s)\<lparr>clients := clients s - {c}\<rparr>)
      else (Some KeyError, emit (RegRemove c) s))"

text \<open>
  The body of the \<^verbatim>\<open>for\<close> loop, lines 53-60 (keep-alive) and 94-102 (alert) of
  \<^verbatim>\<open>server.py\<close>; the two copies differ in the message sent and in the text of the warning.
  Both handlers format \<^verbatim>\<open>client_socket.getpeername()\<close> into the log record before
  anything else; an exception raised inside a handler is not caught by its sibling
  handler and leaves the loop.
\<close>

definition fanout_client ::
  "net \<Rightarrow> fanout_kind \<Rightarrow> string \<Rightarrow> conn \<Rightarrow> server \<Rightarrow> exn option \<times> server" where
  "fanout_client nw k msg c s =
     (let s1 = emit (SendAll c msg) s in
      case sendall nw c msg of
        None \<Rightarrow> (None, s1)
      | Some e \<Rightarrow>
          if is_OSError e then
            (case getpeername nw c of
               Inl e' \<Rightarrow> (Some e', s1)
             | Inr p \<Rightarrow>
                 (case registry_remove c (emit (Log WARNING (SendFailed k p e)) s1) of
                    (Some e', s2) \<Rightarrow> (Some e', s2)
                  | (None, s2) \<Rightarrow> (None, emit (CloseConn c) s2)))
          else
            (case getpeername nw c of
               Inl e' \<Rightarrow> (Some e', s1)
             | Inr p \<Rightarrow> (None, emit (Log ERROR (UnexpectedClientError p e)) s1)))"

fun fanout_loop ::
  "net \<Rightarrow> fanout_kind \<Rightarrow> string \<Rightarrow> conn list \<Rightarrow> server \<Rightarrow> exn option \<times> server" where
  "fanout_loop nw k msg [] s = (None, s)"
| "fanout_loop nw k msg (c # cs) s =
     (case fanout_client nw k msg c s of
        (Some e, s') \<Rightarrow> (Some e, s')
      | (None, s') \<Rightarrow> fanout_loop nw k msg cs s')"

text \<open>
  \<^verbatim>\<open>with client_lock: for client_socket in list(clients): ...\<close>. The list \<open>snap\<close> is the
  order in which \<^verbatim>\<open>list(clients)\<close> enumerates the set; Python does not fix it. The lock is
  released when an exception leaves the \<^verbatim>\<open>with\<close> block.
\<close>

definition fanout ::
  "net \<Rightarrow> fanout_kind \<Rightarrow> string \<Rightarrow> conn list \<Rightarrow> server \<Rightarrow> exn option \<times> server" where
  "fanout nw k msg snap s =
     (case fanout_loop nw k msg snap (emit RegList (emit (Acquire client_lock) s)) of
        (r, s') \<Rightarrow> (r, emit (Release client_lock) s'))"

text \<open>
  One round of \<^verbatim>\<open>while True\<close> in \<^verbatim>\<open>send_keep_alive\<close>, and the loop over the rounds that
  the given answers of the network allow. The function has no \<^verbatim>\<open>try\<close> around the
  loop: an exception that leaves the fan-out ends the thread (\<open>Some e\<close>).
\<close>

definition keep_alive_round :: "net \<Rightarrow> conn list \<Rightarrow> server \<Rightarrow> exn option \<times> server" where
  "keep_alive_round nw snap s =
     (case fanout nw KeepAlive ''keep-alive'' snap s of
        (Some e, s') \<Rightarrow> (Some e, s')
      | (None, s') \<Rightarrow> (None, emit (Sleep keep_alive_interval) s'))"

fun send_keep_alive :: "(net \<times> conn list) list \<Rightarrow> server \<Rightarrow> exn option \<times> server" where
  "send_keep_alive [] s = (None, s)"
| "send_keep_alive ((nw, snap) # rounds) s =
     (case keep_alive_round nw snap s of
        (Some e, s') \<Rightarrow> (Some e, s')
      | (None, s') \<Rightarrow> send_keep_alive rounds s')"

section \<open>The per-connection receiver\<close>

text \<open>
  What \<^verbatim>\<open>recv(1024)\<close> answers: bytes (none when the peer has closed) or an exception.
\<close>

datatype recv = Recv string | RecvRaises exn

datatype loop_exit = Blocked | Break | Raise exn

text \<open>
  The \<^verbatim>\<open>while True\<close> of \<^verbatim>\<open>handle_client\<close>, lines 117-122, run on the answers that
  have arrived so far. \<open>Blocked\<close>: every answer was data and the thread waits in
  \<^verbatim>\<open>recv\<close> for the next one.
\<close>

fun recv_loop :: "peer \<Rightarrow> recv list \<Rightarrow> server \<Rightarrow> loop_exit \<times> server" where
  "recv_loop p [] s = (Blocked, s)"
| "recv_loop p (Recv d # rs) s =
     (if d = [] then (Break, emit (Log INFO (ClientDisconnected p)) s)
      else recv_loop p rs (emit (Log INFO (ReceivedData p d)) s))"
| "recv_loop p (RecvRaises e # rs) s = (Raise e, s)"

text \<open>
  The \<^verbatim>\<open>finally\<close> block, lines 126-129. The lock it takes is a new object,
  \<^verbatim>\<open>with threading.Lock():\<close>, not \<^verbatim>\<open>client_lock\<close>.
\<close>

definition handle_client_finally :: "conn \<Rightarrow> server \<Rightarrow> server" where
  "handle_client_finally c s =
     (let s1 = emit (RegContains c) (emit (Acquire fresh_lock) s);
          s2 = (if c \<in> clients s1 then snd (registry_remove c s1) else s1)
      in emit (CloseConn c) (emit (Release fresh_lock) s2))"

datatype thread_end = Running | Returned | Died exn

text \<open>
  \<^verbatim>\<open>peername\<close> is bound inside the \<^verbatim>\<open>try\<close>. When \<^verbatim>\<open>getpeername\<close> raises, the handler
  formats the unbound \<^verbatim>\<open>peername\<close>, which raises \<^verbatim>\<open>UnboundLocalError\<close> inside the
  handler; the \<^verbatim>\<open>finally\<close> block still runs and the thread dies with that exception.
\<close>

definition handle_client :: "net \<Rightarrow> conn \<Rightarrow> recv list \<Rightarrow> server \<Rightarrow> thread_end \<times> server" where
  "handle_client nw c rs s =
     (case getpeername nw c of
        Inl e \<Rightarrow> (Died UnboundLocalError, handle_client_finally c s)
      | Inr p \<Rightarrow>
          (case recv_loop p rs (emit (Log INFO (ClientConnected p)) s) of
             (Blocked, s') \<Rightarrow> (Running, s')
           | (Break, s') \<Rightarrow> (Returned, handle_client_finally c s')
           | (Raise e, s') \<Rightarrow>
               (Returned, handle_client_finally c (emit (Log ERROR (ClientError p e)) s'))))"

section \<open>The acceptor and shutdown\<close>

text \<open>
  What the listening socket delivers: a raw socket with its address and the outcome of
  \<^verbatim>\<open>context.wrap_socket\<close> on it (the TLS socket, or the exception of the handshake), or
  the operator's \<^verbatim>\<open>KeyboardInterrupt\<close>.
\<close>

datatype incoming = Connection nat peer "exn + conn" | Interrupt

datatype accept_exit = Accepting | Interrupted | Raised exn

definition registry_add :: "conn \<Rightarrow> server \<Rightarrow> server" where
  "registry_add c s = (emit (RegAdd c) s)\<lparr>clients := insert c (clients s)\<rparr>"

text \<open>
  The \<^verbatim>\<open>while True\<close> of \<^verbatim>\<open>start_server\<close>, lines 147-158. The inner \<^verbatim>\<open>try\<close> has the one
  handler \<^verbatim>\<open>except ssl.SSLError\<close>. \<open>Accepting\<close>: the loop waits in \<^verbatim>\<open>accept\<close>.
\<close>

fun accept_loop :: "incoming list \<Rightarrow> server \<Rightarrow> accept_exit \<times> server" where
  "accept_loop [] s = (Accepting, s)"
| "accept_loop (Interrupt # rest) s = (Interrupted, s)"
| "accept_loop (Connection raw addr hs # rest) s =
     (let s1 = emit (Log INFO (ConnectionFrom addr)) s in
      case hs of
        Inr c \<Rightarrow>
          accept_loop rest
            (emit (StartThread c)
              (emit (Release client_lock)
                (registry_add c
                  (emit (Acquire client_lock)
                    (emit (Log INFO (SecureConnection addr)) s1)))))
      | Inl e \<Rightarrow>
          if is_SSLError e
          then accept_loop rest (emit (CloseRaw raw) (emit (Log ERROR (SSLErrorWith addr e)) s1))
          else (Raised e, s1))"

text \<open>The loop of the outer \<^verbatim>\<open>finally\<close>, lines 163-165: close, then remove.\<close>

fun close_all :: "conn list \<Rightarrow> server \<Rightarrow> exn option \<times> server" where
  "close_all [] s = (None, s)"
| "close_all (c # cs) s =
     (case registry_remove c (emit (CloseConn c) s) of
        (Some e, s') \<Rightarrow> (Some e, s')
      | (None, s') \<Rightarrow> close_all cs s')"

definition start_server_finally :: "conn list \<Rightarrow> server \<Rightarrow> exn option \<times> server" where
  "start_server_finally snap s =
     (case close_all snap (emit RegList (emit (Acquire client_lock) s)) of
        (Some e, s') \<Rightarrow> (Some e, emit (Release client_lock) s')
      | (None, s') \<Rightarrow>
          (None, emit (Log INFO ServerSocketClosed)
                   (emit CloseServerSocket (emit (Release client_lock) s'))))"

text \<open>
  \<^verbatim>\<open>start_server\<close> from line 146 on (the socket is bound and the two daemons are started
  before). \<open>snap\<close> is the enumeration \<^verbatim>\<open>list(clients)\<close> of the \<^verbatim>\<open>finally\<close> block.
\<close>

definition start_server :: "incoming list \<Rightarrow> conn list \<Rightarrow> server \<Rightarrow> accept_exit \<times> server" where
  "start_server inc snap s =
     (case accept_loop inc s of
        (Accepting, s') \<Rightarrow> (Accepting, s')
      | (Interrupted, s') \<Rightarrow>
          (case start_server_finally snap (emit (Log INFO ShuttingDown) s') of
             (None, s'') \<Rightarrow> (Interrupted, s'')
           | (Some e, s'') \<Rightarrow> (Raised e, s''))
      | (Raised e, s') \<Rightarrow>
          (case start_server_finally snap s' of
             (None, s'') \<Rightarrow> (Raised e, s'')
           | (Some e', s'') \<Rightarrow> (Raised e', s'')))"

section \<open>The log tail monitor\<close>

text \<open>
  A Python file object: the file it is bound to, its read position and its \<^verbatim>\<open>closed\<close>
  flag. The watcher's two local variables make up its state.
\<close>

record handle =
  h_inode :: inode
  h_pos :: nat
  h_closed :: bool

record watcher =
  current_inode :: "inode option"
  file_handle :: "handle option"

text \<open>
  What the file system answers during one round: \<^verbatim>\<open>os.path.exists\<close>, \<^verbatim>\<open>os.stat\<close> (the
  inode, or an exception), \<^verbatim>\<open>open\<close> (the file that the path names at that moment, or an
  exception), the text of each file (decoded, line ends as \<^verbatim>\<open>\n\<close>), and whether
  \<^verbatim>\<open>readline\<close> raises (an I/O error, or bytes that do not decode) and how many
  characters the file object has consumed by then: a text file object that fails to
  decode a chunk has read past it, and the lines in that chunk are lost.
  \<^verbatim>\<open>os.stat\<close> and \<^verbatim>\<open>open\<close> are two calls on the path.
\<close>

record fs =
  path_exists :: bool
  stat_result :: "exn + inode"
  open_result :: "exn + inode"
  file_text :: "inode \<Rightarrow> string"
  read_error :: "(exn \<times> nat) option"

fun readline_from :: "string \<Rightarrow> string" where
  "readline_from [] = []"
| "readline_from (c # cs) = (if c = CHR 0x0A then [c] else c # readline_from cs)"

text \<open>
  \<^verbatim>\<open>str.strip()\<close>: the characters with \<^verbatim>\<open>isspace()\<close> among the code points below 256.
\<close>

definition isspace :: "char \<Rightarrow> bool" where
  "isspace c = (c \<in> set [CHR 0x09, CHR 0x0A, CHR 0x0B, CHR 0x0C, CHR 0x0D, CHR 0x1C,
                          CHR 0x1D, CHR 0x1E, CHR 0x1F, CHR 0x20, CHR 0x85, CHR 0xA0])"

definition strip :: "string \<Rightarrow> string" where
  "strip l = rev (dropWhile isspace (rev (dropWhile isspace l)))"

text \<open>Lines 75-83: the (re)open.\<close>

definition reopen :: "fs \<Rightarrow> inode \<Rightarrow> watcher \<times> server \<Rightarrow> exn option \<times> watcher \<times> server" where
  "reopen f ino ws =
     (case ws of (w, s) \<Rightarrow>
        if current_inode w \<noteq> Some ino then
          (case (case file_handle w of
                   None \<Rightarrow> (w, s)
                 | Some h \<Rightarrow>
                     (w\<lparr>file_handle := Some (h\<lparr>h_closed := True\<rparr>)\<rparr>,
                      emit FileClose (emit (Log INFO FileReplaced) s))) of
             (w1, s1) \<Rightarrow>
               (case open_result f of
                  Inl e \<Rightarrow> (Some e, w1, s1)
                | Inr i \<Rightarrow>
                    (None,
                     w1\<lparr>file_handle :=
                          Some \<lparr>h_inode = i, h_pos = length (file_text f i), h_closed = False\<rparr>,
                        current_inode := Some ino\<rparr>,
                     emit (FileSeekEnd (length (file_text f i)))
                       (emit (Log INFO (MonitoringInode ino)) (emit (FileOpen i) s1)))))
        else (None, w, s))"

text \<open>
  Lines 85-86: \<^verbatim>\<open>file_handle.readline()\<close>. On \<^verbatim>\<open>None\<close> the attribute lookup raises, on
  a closed file \<^verbatim>\<open>readline\<close> raises \<^verbatim>\<open>ValueError\<close>. A \<^verbatim>\<open>readline\<close> that raises
  returns no line and leaves the position after what it has consumed.
\<close>

definition read_line :: "fs \<Rightarrow> watcher \<times> server \<Rightarrow> exn option \<times> string \<times> watcher \<times> server" where
  "read_line f ws =
     (case ws of (w, s) \<Rightarrow>
        (case file_handle w of
           None \<Rightarrow> (Some AttributeError, [], w, s)
         | Some h \<Rightarrow>
             if h_closed h then (Some ValueError, [], w, s)
             else
               (case read_error f of
                  Some (e, k) \<Rightarrow>
                    (Some e, [], w\<lparr>file_handle := Some (h\<lparr>h_pos := h_pos h + k\<rparr>)\<rparr>, s)
                | None \<Rightarrow>
                    (let line = readline_from (drop (h_pos h) (file_text f (h_inode h)))
                     in (None, line,
                         w\<lparr>file_handle := Some (h\<lparr>h_pos := h_pos h + length line\<rparr>)\<rparr>,
                         emit (FileReadLine (h_pos h) line) s)))))"

definition alert_message :: "string \<Rightarrow> string" where
  "alert_message line = ''Keyword alert: '' @ strip line"

text \<open>Lines 90-102: \<^verbatim>\<open>keyword in line\<close> is the substring test \<^const>\<open>sublist\<close>.\<close>

definition process_line ::
  "string \<Rightarrow> net \<Rightarrow> conn list \<Rightarrow> string \<Rightarrow> server \<Rightarrow> exn option \<times> server" where
  "process_line keyword nw snap line s =
     (if sublist keyword line
      then fanout nw Alert (alert_message line) snap
             (emit (Log INFO (KeywordFound (strip line))) s)
      else (None, s))"

text \<open>The \<^verbatim>\<open>try\<close> block, lines 69-102.\<close>

definition try_body ::
  "string \<Rightarrow> fs \<Rightarrow> net \<Rightarrow> conn list \<Rightarrow> watcher \<times> server \<Rightarrow> exn option \<times> watcher \<times> server" where
  "try_body keyword f nw snap ws =
     (case ws of (w, s) \<Rightarrow>
        if \<not> path_exists f
        then (None, w, emit (Sleep monitor_poll_interval) (emit (Log WARNING LogFileNotFound) s))
        else
          (case stat_result f of
             Inl e \<Rightarrow> (Some e, w, s)
           | Inr ino \<Rightarrow>
               (case reopen f ino (w, s) of
                  (Some e, w1, s1) \<Rightarrow> (Some e, w1, s1)
                | (None, w1, s1) \<Rightarrow>
                    (case read_line f (w1, s1) of
                       (Some e, line, w2, s2) \<Rightarrow> (Some e, w2, s2)
                     | (None, line, w2, s2) \<Rightarrow>
                         if line = [] then (None, w2, emit (Sleep monitor_poll_interval) s2)
                         else
                           (case process_line keyword nw snap line s2 of
                              (r, s3) \<Rightarrow> (r, w2, s3))))))"

text \<open>The \<^verbatim>\<open>finally\<close> block, lines 108-110.\<close>

definition reset_if_closed :: "watcher \<Rightarrow> watcher" where
  "reset_if_closed w =
     (case file_handle w of
        None \<Rightarrow> w
      | Some h \<Rightarrow> if h_closed h then w\<lparr>current_inode := None\<rparr> else w)"

text \<open>
  One round of \<^verbatim>\<open>while True\<close>, lines 67-110: the \<^verbatim>\<open>try\<close> block, the handler
  \<^verbatim>\<open>except Exception\<close>, which catches every exception of type \<^typ>\<open>exn\<close>, and the
  \<^verbatim>\<open>finally\<close> block, which also runs on \<^verbatim>\<open>continue\<close>. The loop has no \<^verbatim>\<open>break\<close>.
\<close>

definition tick ::
  "string \<Rightarrow> fs \<Rightarrow> net \<Rightarrow> conn list \<Rightarrow> watcher \<times> server \<Rightarrow> watcher \<times> server" where
  "tick keyword f nw snap ws =
     (case try_body keyword f nw snap ws of
        (r, w1, s1) \<Rightarrow>
          (reset_if_closed w1,
           case r of
             None \<Rightarrow> s1
           | Some e \<Rightarrow> emit (Sleep monitor_poll_interval) (emit (Log ERROR (WatchError e)) s1)))"

fun watch_loop ::
  "string \<Rightarrow> (fs \<times> net \<times> conn list) list \<Rightarrow> watcher \<times> server \<Rightarrow> watcher \<times> server" where
  "watch_loop keyword [] ws = ws"
| "watch_loop keyword ((f, nw, snap) # rounds) ws =
     watch_loop keyword rounds (tick keyword f nw snap ws)"

definition watch_log_file_by_inode ::
  "string \<Rightarrow> (fs \<times> net \<times> conn list) list \<Rightarrow> server \<Rightarrow> watcher \<times> server" where
  "watch_log_file_by_inode keyword rounds s =
     watch_loop keyword rounds (\<lparr>current_inode = None, file_handle = None\<rparr>, s)"

section \<open>Properties of traces\<close>

text \<open>
  The lock discipline of one thread, read off its trace: every access to the registry
  happens while the thread holds \<open>client_lock\<close>. The flag says whether it holds the lock
  at the start of the trace.
\<close>

fun is_registry_access :: "event \<Rightarrow> bool" where
  "is_registry_access RegList = True"
| "is_registry_access (RegAdd c) = True"
| "is_registry_access (RegRemove c) = True"
| "is_registry_access (RegContains c) = True"
| "is_registry_access e = False"

fun under_client_lock :: "bool \<Rightarrow> event list \<Rightarrow> bool" where
  "under_client_lock held [] = True"
| "under_client_lock held (Acquire l # es) = under_client_lock (held \<or> l = client_lock) es"
| "under_client_lock held (Release l # es) = under_client_lock (held \<and> l \<noteq> client_lock) es"
| "under_client_lock held (e # es) =
     (if is_registry_access e then held \<and> under_client_lock held es
      else under_client_lock held es)"

text \<open>Whether the thread holds \<open>client_lock\<close> at the end of a trace.\<close>

fun holds_after :: "bool \<Rightarrow> event list \<Rightarrow> bool" where
  "holds_after held [] = held"
| "holds_after held (Acquire l # es) = holds_after (held \<or> l = client_lock) es"
| "holds_after held (Release l # es) = holds_after (held \<and> l \<noteq> client_lock) es"
| "holds_after held (e # es) = holds_after held es"

text \<open>
  What the acceptor is expected to do with one incoming connection, in the words of the
  specification: on a failed handshake log and close the raw socket, on success add the
  TLS socket to the registry and then start its receiver. \<open>survivable\<close> singles out the
  arrivals that are handshakes ending well or in an \<^verbatim>\<open>ssl.SSLError\<close>.
\<close>

fun survivable :: "incoming \<Rightarrow> bool" where
  "survivable (Connection raw addr (Inr c)) = True"
| "survivable (Connection raw addr (Inl e)) = is_SSLError e"
| "survivable Interrupt = False"

fun acceptor_events :: "incoming \<Rightarrow> event list" where
  "acceptor_events (Connection raw addr (Inr c)) =
     [Log INFO (ConnectionFrom addr), Log INFO (SecureConnection addr),
      Acquire client_lock, RegAdd c, Release client_lock, StartThread c]"
| "acceptor_events (Connection raw addr (Inl e)) =
     [Log INFO (ConnectionFrom addr), Log ERROR (SSLErrorWith addr e), CloseRaw raw]"
| "acceptor_events Interrupt = []"

fun accepted :: "incoming \<Rightarrow> conn list" where
  "accepted (Connection raw addr (Inr c)) = [c]"
| "accepted i = []"

text \<open>
  The receiver: an answer of \<^verbatim>\<open>recv\<close> that ends the stream (no bytes, or an exception),
  the log record written for it, and the effects of the \<^verbatim>\<open>finally\<close> block in order.
\<close>

fun ends_stream :: "recv \<Rightarrow> bool" where
  "ends_stream (Recv d) = (d = [])"
| "ends_stream (RecvRaises e) = True"

fun end_record :: "peer \<Rightarrow> recv \<Rightarrow> event" where
  "end_record p (Recv d) = Log INFO (ClientDisconnected p)"
| "end_record p (RecvRaises e) = Log ERROR (ClientError p e)"

definition removal_events :: "conn \<Rightarrow> server \<Rightarrow> event list" where
  "removal_events c s =
     [Acquire fresh_lock, RegContains c] @ (if c \<in> clients s then [RegRemove c] else []) @
     [Release fresh_lock, CloseConn c]"

text \<open>
  The watcher. \<open>handle_inode_inv\<close>: an open handle is bound to the file whose inode is
  recorded. \<open>stat_open_agree\<close>: in this round the path names the same file when
  \<^verbatim>\<open>os.stat\<close> and when \<^verbatim>\<open>open\<close> look at it.
\<close>

definition handle_inode_inv :: "watcher \<Rightarrow> bool" where
  "handle_inode_inv w =
     (case file_handle w of
        None \<Rightarrow> True
      | Some h \<Rightarrow> h_closed h \<or> current_inode w = Some (h_inode h))"

definition stat_open_agree :: "fs \<Rightarrow> bool" where
  "stat_open_agree f =
     (case stat_result f of
        Inl e \<Rightarrow> True
      | Inr i \<Rightarrow> (case open_result f of Inl e \<Rightarrow> True | Inr j \<Rightarrow> i = j))"



fun is_file_event :: "event \<Rightarrow> bool" where
  "is_file_event FileClose = True"
| "is_file_event (FileOpen i) = True"
| "is_file_event (FileSeekEnd n) = True"
| "is_file_event (FileReadLine pos line) = True"
| "is_file_event e = False"


text \<open>The calls of \<^verbatim>\<open>sendall\<close> in a trace, in order: the socket and the payload.\<close>

fun sends :: "event list \<Rightarrow> (conn \<times> string) list" where
  "sends [] = []"
| "sends (SendAll c m # es) = (c, m) # sends es"
| "sends (e # es) = sends es"

section \<open>Traces of the fan-out\<close>

lemma sends_append: "sends (xs @ ys) = sends xs @ sends ys"
  by (induction xs rule: sends.induct) simp_all






lemma fanout_client_cases:
  "fanout_client nw k msg c s = (r, s') \<Longrightarrow>
   (\<exists>es. trace s' = trace s @ SendAll c msg # es \<and> sends es = [] \<and>
         filter is_file_event es = [])"
  unfolding fanout_client_def registry_remove_def emit_def Let_def
  by (cases "sendall nw c msg"; cases "getpeername nw c"; cases "c \<in> clients s";
      cases "is_OSError (the (sendall nw c msg))") auto


lemma fanout_client_sends:
  "sends (trace (snd (fanout_client nw k msg c s))) = sends (trace s) @ [(c, msg)]"
proof -
  obtain r s' where st: "fanout_client nw k msg c s = (r, s')"
    by (cases "fanout_client nw k msg c s")
  from fanout_client_cases[OF st] st show ?thesis by (auto simp: sends_append)
qed



lemma fanout_loop_sends:
  "\<exists>n\<le>length snap.
     sends (trace (snd (fanout_loop nw k msg snap s))) =
       sends (trace s) @ map (\<lambda>c. (c, msg)) (take n snap) \<and>
     (fst (fanout_loop nw k msg snap s) = None \<longrightarrow> n = length snap)"
proof (induction snap arbitrary: s)
  case Nil
  show ?case by simp
next
  case (Cons c cs)
  obtain r s' where st: "fanout_client nw k msg c s = (r, s')"
    by (cases "fanout_client nw k msg c s")
  with fanout_client_sends[of nw k msg c s]
  have f: "sends (trace s') = sends (trace s) @ [(c, msg)]" by simp
  show ?case
  proof (cases r)
    case None
    from Cons[of s'] obtain n where n: "n \<le> length cs"
      "sends (trace (snd (fanout_loop nw k msg cs s'))) =
         sends (trace s') @ map (\<lambda>c. (c, msg)) (take n cs)"
      "fst (fanout_loop nw k msg cs s') = None \<longrightarrow> n = length cs"
      by auto
    with None st f have
      "Suc n \<le> length (c # cs) \<and>
       sends (trace (snd (fanout_loop nw k msg (c # cs) s))) =
         sends (trace s) @ map (\<lambda>c. (c, msg)) (take (Suc n) (c # cs)) \<and>
       (fst (fanout_loop nw k msg (c # cs) s) = None \<longrightarrow> Suc n = length (c # cs))"
      by simp
    then show ?thesis by (intro exI[of _ "Suc n"])
  next
    case (Some e)
    with st f have
      "Suc 0 \<le> length (c # cs) \<and>
       sends (trace (snd (fanout_loop nw k msg (c # cs) s))) =
         sends (trace s) @ map (\<lambda>c. (c, msg)) (take (Suc 0) (c # cs)) \<and>
       (fst (fanout_loop nw k msg (c # cs) s) = None \<longrightarrow> Suc 0 = length (c # cs))"
      by simp
    then show ?thesis by (intro exI[of _ "Suc 0"])
  qed
qed




lemma fanout_sends:
  "\<exists>n\<le>length snap.
     sends (trace (snd (fanout nw k msg snap s))) =
       sends (trace s) @ map (\<lambda>c. (c, msg)) (take n snap) \<and>
     (fst (fanout nw k msg snap s) = None \<longrightarrow> n = length snap)"
proof -
  let ?s0 = "emit RegList (emit (Acquire client_lock) s)"
  obtain r s' where st: "fanout_loop nw k msg snap ?s0 = (r, s')"
    by (cases "fanout_loop nw k msg snap ?s0")
  from fanout_loop_sends[of snap nw k msg ?s0] obtain n where n: "n \<le> length snap"
    "sends (trace (snd (fanout_loop nw k msg snap ?s0))) =
       sends (trace ?s0) @ map (\<lambda>c. (c, msg)) (take n snap)"
    "fst (fanout_loop nw k msg snap ?s0) = None \<longrightarrow> n = length snap"
    by auto
  have s0: "sends (trace ?s0) = sends (trace s)" by (simp add: emit_def sends_append)
  from n st s0 have
    "n \<le> length snap \<and>
     sends (trace (snd (fanout nw k msg snap s))) =
       sends (trace s) @ map (\<lambda>c. (c, msg)) (take n snap) \<and>
     (fst (fanout nw k msg snap s) = None \<longrightarrow> n = length snap)"
    by (simp add: fanout_def emit_def sends_append)
  then show ?thesis by (intro exI[of _ n])
qed

section \<open>Fan-out: pruning\<close>

lemma fanout_client_sent:
  "sendall nw c msg = None \<Longrightarrow>
   fanout_client nw k msg c s = (None, s\<lparr>trace := trace s @ [SendAll c msg]\<rparr>)"
  by (simp add: fanout_client_def emit_def)

lemma fanout_client_prunes:
  "sendall nw c msg = Some e \<Longrightarrow> is_OSError e \<Longrightarrow> getpeername nw c = Inr p \<Longrightarrow>
   c \<in> clients s \<Longrightarrow>
   fanout_client nw k msg c s =
     (None, \<lparr>clients = clients s - {c},
             trace = trace s @ [SendAll c msg, Log WARNING (SendFailed k p e),
                                RegRemove c, CloseConn c]\<rparr>)"
  by (simp add: fanout_client_def registry_remove_def emit_def)

lemma fanout_client_keeps:
  "sendall nw c msg = Some e \<Longrightarrow> \<not> is_OSError e \<Longrightarrow> getpeername nw c = Inr p \<Longrightarrow>
   fanout_client nw k msg c s =
     (None, s\<lparr>trace := trace s @ [SendAll c msg, Log ERROR (UnexpectedClientError p e)]\<rparr>)"
  by (simp add: fanout_client_def emit_def)

text \<open>
  Claim C4: in a fan-out pass, a send that fails with a recoverable transport error has
  the client removed from the registry and its connection closed.

  The code does so only when the handler gets as far as \<^verbatim>\<open>clients.remove\<close>. The handler
  first formats \<^verbatim>\<open>client_socket.getpeername()\<close> into the warning. Here the send to client
  1 raises \<^verbatim>\<open>BrokenPipeError\<close> and \<^verbatim>\<open>getpeername\<close> on the dead socket raises \<^verbatim>\<open>OSError\<close>:
  the exception leaves the handler, client 1 stays registered and open, client 2 is never
  sent to, and \<^verbatim>\<open>send_keep_alive\<close>, which has no outer \<^verbatim>\<open>try\<close>, ends.
\<close>

theorem C4_failed_send_not_pruned_when_getpeername_raises:
  "send_keep_alive
     [(\<lparr>sendall = (\<lambda>c m. if c = 1 then Some BrokenPipeError else None),
        getpeername = (\<lambda>c. if c = 1 then Inl OSError else Inr (c + 100))\<rparr>, [1, 2]),
      (\<lparr>sendall = (\<lambda>c m. None), getpeername = (\<lambda>c. Inr (c + 100))\<rparr>, [1, 2])]
     \<lparr>clients = {1, 2}, trace = []\<rparr> =
   (Some OSError,
    \<lparr>clients = {1, 2},
     trace = [Acquire client_lock, RegList, SendAll 1 ''keep-alive'', Release client_lock]\<rparr>)"
  by (simp add: keep_alive_round_def fanout_def fanout_client_def emit_def)

section \<open>Removal of a connection that is not registered\<close>

lemma handle_client_finally_absent:
  "c \<notin> clients s \<Longrightarrow>
   handle_client_finally c s =
     s\<lparr>trace := trace s @ [Acquire fresh_lock, RegContains c, Release fresh_lock, CloseConn c]\<rparr>"
  by (simp add: handle_client_finally_def emit_def)

text \<open>
  Claim C8: removing a connection that is not a member of the registry is a no-op that
  raises nothing, on every removal path, the prune path of the fan-out included.

  The receiver tests membership first (\<open>handle_client_finally_absent\<close>). The prune path
  calls \<^verbatim>\<open>clients.remove\<close> with no test. Here the alert fan-out holds the lock and has
  taken its snapshot with client 1 in it; the receiver of client 1, which does not take
  \<open>client_lock\<close>, has removed client 1 since. The send to client 1 raises
  \<^verbatim>\<open>ssl.SSLError\<close>, and the prune raises \<^verbatim>\<open>KeyError\<close>.
\<close>

theorem C8_prune_of_absent_client_raises_KeyError:
  "fanout_client \<lparr>sendall = (\<lambda>c m. Some SSLError), getpeername = (\<lambda>c. Inr 10)\<rparr>
     Alert ''Keyword alert: x'' 1 \<lparr>clients = {2}, trace = [Acquire client_lock, RegList]\<rparr> =
   (Some KeyError,
    \<lparr>clients = {2},
     trace = [Acquire client_lock, RegList, SendAll 1 ''Keyword alert: x'',
              Log WARNING (SendFailed Alert 10 SSLError), RegRemove 1]\<rparr>)"
  by (simp add: fanout_client_def registry_remove_def emit_def)

section \<open>Lock discipline\<close>

text \<open>
  The fan-out of both daemons, the acceptor and the shutdown loop touch the registry
  under \<open>client_lock\<close> only.
\<close>

lemma under_client_lock_append:
  "under_client_lock held (xs @ ys) =
     (under_client_lock held xs \<and> under_client_lock (holds_after held xs) ys)"
  by (induction held xs rule: under_client_lock.induct) simp_all

lemma holds_after_append:
  "holds_after held (xs @ ys) = holds_after (holds_after held xs) ys"
  by (induction held xs rule: holds_after.induct) simp_all

lemma fanout_client_locked:
  "fanout_client nw k msg c s = (r, s') \<Longrightarrow>
   \<exists>es. trace s' = trace s @ es \<and> under_client_lock True es \<and> holds_after True es"
  unfolding fanout_client_def registry_remove_def emit_def Let_def
  by (cases "sendall nw c msg"; cases "getpeername nw c"; cases "c \<in> clients s";
      cases "is_OSError (the (sendall nw c msg))") auto

lemma fanout_loop_locked:
  "\<exists>es. trace (snd (fanout_loop nw k msg snap s)) = trace s @ es \<and>
        under_client_lock True es \<and> holds_after True es"
proof (induction snap arbitrary: s)
  case Nil
  show ?case by simp
next
  case (Cons c cs)
  obtain r s' where st: "fanout_client nw k msg c s = (r, s')"
    by (cases "fanout_client nw k msg c s")
  from fanout_client_locked[OF st] obtain es where es: "trace s' = trace s @ es"
    "under_client_lock True es" "holds_after True es" by auto
  show ?case
  proof (cases r)
    case (Some e)
    with st es have "trace (snd (fanout_loop nw k msg (c # cs) s)) = trace s @ es \<and>
        under_client_lock True es \<and> holds_after True es" by simp
    then show ?thesis by (intro exI[of _ es])
  next
    case None
    from Cons[of s'] obtain es' where es': "trace (snd (fanout_loop nw k msg cs s')) = trace s' @ es'"
      "under_client_lock True es'" "holds_after True es'" by auto
    with None st es have "trace (snd (fanout_loop nw k msg (c # cs) s)) = trace s @ (es @ es') \<and>
        under_client_lock True (es @ es') \<and> holds_after True (es @ es')"
      by (simp add: under_client_lock_append holds_after_append)
    then show ?thesis by (intro exI[of _ "es @ es'"])
  qed
qed

lemma fanout_under_client_lock:
  "\<exists>es. trace (snd (fanout nw k msg snap s)) = trace s @ es \<and> under_client_lock False es"
proof -
  let ?s0 = "emit RegList (emit (Acquire client_lock) s)"
  obtain r s' where st: "fanout_loop nw k msg snap ?s0 = (r, s')"
    by (cases "fanout_loop nw k msg snap ?s0")
  from fanout_loop_locked[of nw k msg snap ?s0] st obtain es where
    es: "trace s' = trace ?s0 @ es" "under_client_lock True es" "holds_after True es"
    by auto
  let ?es = "[Acquire client_lock, RegList] @ es @ [Release client_lock]"
  from st es have "trace (snd (fanout nw k msg snap s)) = trace s @ ?es \<and>
      under_client_lock False ?es"
    by (simp add: fanout_def emit_def under_client_lock_append)
  then show ?thesis by (intro exI[of _ ?es])
qed

lemma acceptor_under_client_lock:
  "under_client_lock False (concat (map acceptor_events inc)) \<and>
   \<not> holds_after False (concat (map acceptor_events inc))"
proof (induction inc)
  case Nil
  show ?case by simp
next
  case (Cons i inc)
  have "under_client_lock False (acceptor_events i) \<and> \<not> holds_after False (acceptor_events i)"
    by (cases i rule: acceptor_events.cases) simp_all
  with Cons show ?case by (simp add: under_client_lock_append holds_after_append)
qed

lemma shutdown_under_client_lock:
  "under_client_lock False
     ([Acquire client_lock, RegList] @ concat (map (\<lambda>c. [CloseConn c, RegRemove c]) snap) @
      [Release client_lock, CloseServerSocket, Log INFO ServerSocketClosed])"
proof -
  have "under_client_lock True (concat (map (\<lambda>c. [CloseConn c, RegRemove c]) snap)) \<and>
        holds_after True (concat (map (\<lambda>c. [CloseConn c, RegRemove c]) snap))"
    by (induction snap) simp_all
  then show ?thesis by (simp add: under_client_lock_append)
qed

text \<open>
  Claim C3: every mutation and every iteration of the client registry happens while
  holding the one shared registry mutex; no access uses a different lock.

  The receiver's \<^verbatim>\<open>finally\<close> block tests membership and removes under
  \<^verbatim>\<open>with threading.Lock():\<close>, a lock made on the spot that no other thread can hold. The
  trace of a receiver whose peer closes the connection does not keep the discipline,
  which the other three paths keep.
\<close>

theorem C3_receiver_removes_without_client_lock:
  "\<not> under_client_lock False
       (trace (snd (handle_client \<lparr>sendall = (\<lambda>c m. None), getpeername = (\<lambda>c. Inr 10)\<rparr>
                      1 [Recv []] \<lparr>clients = {1}, trace = []\<rparr>)))"
  by (simp add: handle_client_def handle_client_finally_def registry_remove_def emit_def)

section \<open>The acceptor\<close>

text \<open>
  Claim C5, as stated: no handshake failure of any kind terminates the accept loop.
  It fails on the code: the inner \<^verbatim>\<open>try\<close> catches \<^verbatim>\<open>ssl.SSLError\<close> only. A handshake that
  the peer resets raises \<^verbatim>\<open>ConnectionResetError\<close>; it is not logged, the raw socket is
  not closed, the exception leaves the loop, the \<^verbatim>\<open>finally\<close> block closes the listening
  socket, and the second connection is never accepted.
\<close>

theorem C5_counterexample:
  "start_server [Connection 1 11 (Inl ConnectionResetError), Connection 2 12 (Inr 7)] []
     \<lparr>clients = {}, trace = []\<rparr> =
   (Raised ConnectionResetError,
    \<lparr>clients = {},
     trace = [Log INFO (ConnectionFrom 11), Acquire client_lock, RegList, Release client_lock,
              CloseServerSocket, Log INFO ServerSocketClosed]\<rparr>)"
  by (simp add: start_server_def start_server_finally_def emit_def)

text \<open>
  Claim C5, amended: for every incoming connection on which the TLS handshake fails with
  an \<^verbatim>\<open>ssl.SSLError\<close>, the acceptor logs the failure, closes the raw socket and goes on
  accepting; on handshake success the TLS socket is added to the registry under
  \<open>client_lock\<close> and then its receiver is started. A run of such arrivals leaves the loop
  waiting in \<^verbatim>\<open>accept\<close>.
\<close>

theorem C5_acceptor_survives_SSLError:
  "list_all survivable inc \<Longrightarrow>
   accept_loop inc s =
     (Accepting, \<lparr>clients = clients s \<union> set (concat (map accepted inc)),
                  trace = trace s @ concat (map acceptor_events inc)\<rparr>)"
proof (induction inc arbitrary: s)
  case Nil
  then show ?case by simp
next
  case (Cons i inc)
  show ?case
  proof (cases i)
    case (Connection raw addr hs)
    show ?thesis
    proof (cases hs)
      case (Inl e)
      with Cons.prems Connection have "is_SSLError e" by simp
      with Cons Connection Inl show ?thesis
        by (simp add: emit_def)
    next
      case (Inr c)
      with Cons Connection show ?thesis
        by (simp add: emit_def registry_add_def)
    qed
  next
    case Interrupt
    with Cons.prems show ?thesis by simp
  qed
qed

theorem C5_acceptor_survives_SSLError_witness:
  "list_all survivable [Connection 1 11 (Inl SSLError), Connection 2 12 (Inr 7)] \<and>
   accept_loop [Connection 1 11 (Inl SSLError), Connection 2 12 (Inr 7)]
       \<lparr>clients = {}, trace = []\<rparr> =
     (Accepting,
      \<lparr>clients = {7},
       trace = [Log INFO (ConnectionFrom 11), Log ERROR (SSLErrorWith 11 SSLError), CloseRaw 1,
                Log INFO (ConnectionFrom 12), Log INFO (SecureConnection 12),
                Acquire client_lock, RegAdd 7, Release client_lock, StartThread 7]\<rparr>)"
  using C5_acceptor_survives_SSLError
          [of "[Connection 1 11 (Inl SSLError), Connection 2 12 (Inr 7)]"
              "\<lparr>clients = {}, trace = []\<rparr>"]
  by simp

section \<open>Shutdown\<close>

lemma close_all_snapshot:
  "distinct snap \<Longrightarrow> set snap \<subseteq> clients s \<Longrightarrow>
   close_all snap s =
     (None, \<lparr>clients = clients s - set snap,
             trace = trace s @ concat (map (\<lambda>c. [CloseConn c, RegRemove c]) snap)\<rparr>)"
proof (induction snap arbitrary: s)
  case Nil
  then show ?case by simp
next
  case (Cons c cs)
  let ?s' = "\<lparr>clients = clients s - {c}, trace = trace s @ [CloseConn c, RegRemove c]\<rparr>"
  from Cons.prems have step: "registry_remove c (emit (CloseConn c) s) = (None, ?s')"
    by (simp add: registry_remove_def emit_def)
  from Cons.prems have "distinct cs" "set cs \<subseteq> clients ?s'" by auto
  from Cons.IH[OF this] have "close_all cs ?s' =
     (None, \<lparr>clients = clients s - {c} - set cs,
             trace = trace s @ [CloseConn c, RegRemove c] @ concat (map (\<lambda>c. [CloseConn c, RegRemove c]) cs)\<rparr>)"
    by simp
  moreover have "clients s - {c} - set cs = clients s - set (c # cs)" by auto
  ultimately show ?case using step by simp
qed

text \<open>
  Claim C10: on the operator's keyboard interrupt of the accept loop the server closes
  every connection still in the registry, removes each, leaving the registry empty, and
  then closes the listening socket. \<open>snap\<close> is any enumeration of the registry as it is
  when the \<^verbatim>\<open>finally\<close> block takes \<^verbatim>\<open>list(clients)\<close>.
\<close>

theorem C10_shutdown_closes_and_empties_registry:
  assumes "accept_loop inc s = (Interrupted, s1)" and "distinct snap" and "set snap = clients s1"
  shows "start_server inc snap s =
     (Interrupted,
      \<lparr>clients = {},
       trace = trace s1 @ [Log INFO ShuttingDown, Acquire client_lock, RegList] @
               concat (map (\<lambda>c. [CloseConn c, RegRemove c]) snap) @
               [Release client_lock, CloseServerSocket, Log INFO ServerSocketClosed]\<rparr>)"
proof -
  let ?s2 = "emit RegList (emit (Acquire client_lock) (emit (Log INFO ShuttingDown) s1))"
  have "set snap \<subseteq> clients ?s2" using assms(3) by (simp add: emit_def)
  from close_all_snapshot[OF assms(2) this] assms(3)
  show ?thesis using assms(1)
    by (simp add: start_server_def start_server_finally_def emit_def)
qed

theorem C10_shutdown_closes_and_empties_registry_witness:
  "accept_loop [Connection 1 11 (Inr 7), Connection 2 12 (Inr 8), Interrupt]
       \<lparr>clients = {}, trace = []\<rparr> =
     (Interrupted,
      \<lparr>clients = {7, 8},
       trace = [Log INFO (ConnectionFrom 11), Log INFO (SecureConnection 11),
                Acquire client_lock, RegAdd 7, Release client_lock, StartThread 7,
                Log INFO (ConnectionFrom 12), Log INFO (SecureConnection 12),
                Acquire client_lock, RegAdd 8, Release client_lock, StartThread 8]\<rparr>) \<and>
   distinct [8, 7 :: conn] \<and> set [8, 7] = {7, 8 :: conn} \<and>
   start_server [Connection 1 11 (Inr 7), Connection 2 12 (Inr 8), Interrupt] [8, 7]
       \<lparr>clients = {}, trace = []\<rparr> =
     (Interrupted,
      \<lparr>clients = {},
       trace = [Log INFO (ConnectionFrom 11), Log INFO (SecureConnection 11),
                Acquire client_lock, RegAdd 7, Release client_lock, StartThread 7,
                Log INFO (ConnectionFrom 12), Log INFO (SecureConnection 12),
                Acquire client_lock, RegAdd 8, Release client_lock, StartThread 8,
                Log INFO ShuttingDown, Acquire client_lock, RegList,
                CloseConn 8, RegRemove 8, CloseConn 7, RegRemove 7,
                Release client_lock, CloseServerSocket, Log INFO ServerSocketClosed]\<rparr>)"
proof -
  let ?inc = "[Connection 1 11 (Inr 7), Connection 2 12 (Inr 8), Interrupt]"
  let ?s0 = "\<lparr>clients = {}, trace = []\<rparr>"
  let ?s1 = "\<lparr>clients = {7, 8},
       trace = [Log INFO (ConnectionFrom 11), Log INFO (SecureConnection 11),
                Acquire client_lock, RegAdd 7, Release client_lock, StartThread 7,
                Log INFO (ConnectionFrom 12), Log INFO (SecureConnection 12),
                Acquire client_lock, RegAdd 8, Release client_lock, StartThread 8]\<rparr>"
  have a: "accept_loop ?inc ?s0 = (Interrupted, ?s1)"
    by (simp add: emit_def registry_add_def insert_commute)
  have d: "distinct [8, 7 :: conn]" by simp
  have e: "set [8, 7 :: conn] = clients ?s1" by auto
  from C10_shutdown_closes_and_empties_registry[OF a d e] a show ?thesis by auto
qed

section \<open>The receiver\<close>

lemma handle_client_finally_eq:
  "handle_client_finally c s =
     \<lparr>clients = clients s - {c}, trace = trace s @ removal_events c s\<rparr>"
  by (simp add: handle_client_finally_def registry_remove_def emit_def removal_events_def)

lemma recv_loop_data:
  "[] \<notin> set ds \<Longrightarrow>
   recv_loop p (map Recv ds @ rs) s =
     recv_loop p rs (s\<lparr>trace := trace s @ map (\<lambda>d. Log INFO (ReceivedData p d)) ds\<rparr>)"
  by (induction ds arbitrary: s) (auto simp: emit_def)

lemma recv_loop_extends:
  "\<exists>es. snd (recv_loop p rs s) = s\<lparr>trace := trace s @ es\<rparr>"
proof (induction rs arbitrary: s)
  case Nil
  show ?case by (rule exI[of _ "[]"]) simp
next
  case (Cons r rs)
  show ?case
  proof (cases r)
    case (Recv d)
    show ?thesis
    proof (cases "d = []")
      case True
      with Recv show ?thesis
        by (auto simp: emit_def intro: exI[of _ "[Log INFO (ClientDisconnected p)]"])
    next
      case False
      from Cons[of "emit (Log INFO (ReceivedData p d)) s"] obtain es where
        "snd (recv_loop p rs (emit (Log INFO (ReceivedData p d)) s)) =
           s\<lparr>trace := trace s @ Log INFO (ReceivedData p d) # es\<rparr>"
        by (auto simp: emit_def)
      with Recv False show ?thesis by auto
    qed
  next
    case (RecvRaises e)
    then show ?thesis by (auto intro: exI[of _ "[]"])
  qed
qed

lemma handle_client_ends:
  assumes "fst (handle_client nw c rs s) \<noteq> Running"
  shows "\<exists>es. snd (handle_client nw c rs s) =
     \<lparr>clients = clients s - {c}, trace = trace s @ es @ removal_events c s\<rparr>"
proof (cases "getpeername nw c")
  case (Inl e)
  then have "snd (handle_client nw c rs s) =
     \<lparr>clients = clients s - {c}, trace = trace s @ [] @ removal_events c s\<rparr>"
    by (simp add: handle_client_def handle_client_finally_eq)
  then show ?thesis by blast
next
  case (Inr p)
  let ?s1 = "emit (Log INFO (ClientConnected p)) s"
  obtain x s2 where r: "recv_loop p rs ?s1 = (x, s2)" by (cases "recv_loop p rs ?s1")
  from recv_loop_extends[of p rs ?s1] r obtain es where
    s2: "s2 = s\<lparr>trace := trace s @ Log INFO (ClientConnected p) # es\<rparr>"
    by (auto simp: emit_def)
  show ?thesis
  proof (cases x)
    case Blocked
    with Inr r assms show ?thesis by (simp add: handle_client_def)
  next
    case Break
    with Inr r s2 have "snd (handle_client nw c rs s) =
       \<lparr>clients = clients s - {c},
        trace = trace s @ (Log INFO (ClientConnected p) # es) @ removal_events c s\<rparr>"
      by (simp add: handle_client_def handle_client_finally_eq removal_events_def)
    then show ?thesis by blast
  next
    case (Raise e)
    with Inr r s2 have "snd (handle_client nw c rs s) =
       \<lparr>clients = clients s - {c},
        trace = trace s @ (Log INFO (ClientConnected p) # es @ [Log ERROR (ClientError p e)]) @
                removal_events c s\<rparr>"
      by (simp add: handle_client_def handle_client_finally_eq removal_events_def emit_def)
    then show ?thesis by blast
  qed
qed

text \<open>
  With the peer's name at hand: after any run of non-empty reads, a read of no bytes or
  an exception of \<^verbatim>\<open>recv\<close> is logged, the connection is removed from the registry and
  closed, and the function returns; the answers \<open>rest\<close> are never asked for. And
  whenever the thread ends, by return or by an exception, the last things it did are
  the removal and then the close.
\<close>

lemma receiver_ends_stream:
  "(getpeername nw c = Inr p \<and> [] \<notin> set ds \<and> ends_stream r \<longrightarrow>
      handle_client nw c (map Recv ds @ r # rest) s =
        (Returned,
         \<lparr>clients = clients s - {c},
          trace = trace s @ [Log INFO (ClientConnected p)] @
                  map (\<lambda>d. Log INFO (ReceivedData p d)) ds @
                  [end_record p r] @ removal_events c s\<rparr>)) \<and>
   (fst (handle_client nw c rs s) \<noteq> Running \<longrightarrow>
      (\<exists>es. snd (handle_client nw c rs s) =
         \<lparr>clients = clients s - {c}, trace = trace s @ es @ removal_events c s\<rparr>))"
proof (intro conjI impI)
  assume a: "getpeername nw c = Inr p \<and> [] \<notin> set ds \<and> ends_stream r"
  let ?s1 = "emit (Log INFO (ClientConnected p)) s"
  let ?s2 = "?s1\<lparr>trace := trace ?s1 @ map (\<lambda>d. Log INFO (ReceivedData p d)) ds\<rparr>"
  from a have loop: "recv_loop p (map Recv ds @ r # rest) ?s1 = recv_loop p (r # rest) ?s2"
    by (simp add: recv_loop_data)
  show "handle_client nw c (map Recv ds @ r # rest) s =
        (Returned,
         \<lparr>clients = clients s - {c},
          trace = trace s @ [Log INFO (ClientConnected p)] @
                  map (\<lambda>d. Log INFO (ReceivedData p d)) ds @
                  [end_record p r] @ removal_events c s\<rparr>)"
  proof (cases r)
    case (Recv d)
    with a have "d = []" by simp
    with Recv loop a show ?thesis
      by (simp add: handle_client_def handle_client_finally_eq emit_def removal_events_def)
  next
    case (RecvRaises e)
    with loop a show ?thesis
      by (simp add: handle_client_def handle_client_finally_eq emit_def removal_events_def)
  qed
next
  assume "fst (handle_client nw c rs s) \<noteq> Running"
  then show "\<exists>es. snd (handle_client nw c rs s) =
         \<lparr>clients = clients s - {c}, trace = trace s @ es @ removal_events c s\<rparr>"
    by (rule handle_client_ends)
qed

lemma receiver_ends_stream_example:
  "getpeername \<lparr>sendall = (\<lambda>c m. None), getpeername = (\<lambda>c. Inr 10)\<rparr> 1 = Inr 10 \<and>
   [] \<notin> set [''hi''] \<and> ends_stream (Recv []) \<and>
   handle_client \<lparr>sendall = (\<lambda>c m. None), getpeername = (\<lambda>c. Inr 10)\<rparr> 1
       (map Recv [''hi''] @ Recv [] # [Recv ''late''])
       \<lparr>clients = {1, 2}, trace = []\<rparr> =
     (Returned,
      \<lparr>clients = {2},
       trace = [Log INFO (ClientConnected 10), Log INFO (ReceivedData 10 ''hi''),
                Log INFO (ClientDisconnected 10), Acquire fresh_lock, RegContains 1,
                RegRemove 1, Release fresh_lock, CloseConn 1]\<rparr>) \<and>
   fst (handle_client \<lparr>sendall = (\<lambda>c m. None), getpeername = (\<lambda>c. Inr 10)\<rparr> 1
          [RecvRaises ConnectionResetError] \<lparr>clients = {1, 2}, trace = []\<rparr>) \<noteq> Running \<and>
   (\<exists>es. snd (handle_client \<lparr>sendall = (\<lambda>c m. None), getpeername = (\<lambda>c. Inr 10)\<rparr> 1
          [RecvRaises ConnectionResetError] \<lparr>clients = {1, 2}, trace = []\<rparr>) =
      \<lparr>clients = {2},
       trace = es @ [Acquire fresh_lock, RegContains 1, RegRemove 1, Release fresh_lock,
                     CloseConn 1]\<rparr>)"
proof -
  let ?nw = "\<lparr>sendall = (\<lambda>c m. None), getpeername = (\<lambda>c. Inr 10)\<rparr>"
  have h1: "getpeername ?nw 1 = Inr 10 \<and> [] \<notin> set [''hi''] \<and> ends_stream (Recv [])"
    by simp
  have h2: "fst (handle_client ?nw 1 [RecvRaises ConnectionResetError]
                   \<lparr>clients = {1, 2}, trace = []\<rparr>) \<noteq> Running"
    by (simp add: handle_client_def)
  have d: "{1, 2} - {1} = {2 :: conn}" by auto
  from receiver_ends_stream[where nw = ?nw and c = 1 and p = 10 and ds = "[''hi'']"
        and r = "Recv []" and rest = "[Recv ''late'']" and s = "\<lparr>clients = {1, 2}, trace = []\<rparr>"
        and rs = "[RecvRaises ConnectionResetError]"] h1 h2
  show ?thesis by (simp add: removal_events_def d)
qed

text \<open>
  Claim C6: upon receiving zero bytes or upon any transport exception the receiver logs
  the event, removes the connection from the registry, closes it and terminates.

  The removal and the close always happen (\<open>receiver_ends_stream\<close>). The log record
  does not: \<^verbatim>\<open>peername = client_socket.getpeername()\<close> is the first statement of the
  \<^verbatim>\<open>try\<close> block, and when it raises (the peer is gone before the thread runs), the
  handler formats \<^verbatim>\<open>peername\<close>, which is unbound. Nothing is logged and the thread dies
  with \<^verbatim>\<open>UnboundLocalError\<close> after the \<^verbatim>\<open>finally\<close> block.
\<close>

theorem C6_receiver_logs_nothing_when_getpeername_raises:
  "handle_client \<lparr>sendall = (\<lambda>c m. None), getpeername = (\<lambda>c. Inl OSError)\<rparr> 1
       [Recv ''hi''] \<lparr>clients = {1}, trace = []\<rparr> =
     (Died UnboundLocalError,
      \<lparr>clients = {},
       trace = [Acquire fresh_lock, RegContains 1, RegRemove 1, Release fresh_lock,
                CloseConn 1]\<rparr>)"
  by (simp add: handle_client_def handle_client_finally_def registry_remove_def emit_def)

section \<open>The monitor: seek to end of file\<close>














text \<open>
  A run of two rounds: the file holds a matching line when it is opened, and a second
  matching line is appended afterwards. Only the second one is read and sent.
\<close>

lemma watch_example_run: "watch_log_file_by_inode ''LoggedIn''
        [(\<lparr>path_exists = True, stat_result = Inr 5, open_result = Inr 5,
           file_text = (\<lambda>i. ''old LoggedIn\<newline>''), read_error = None\<rparr>,
          \<lparr>sendall = (\<lambda>c m. None), getpeername = (\<lambda>c. Inr 10)\<rparr>, [1]),
         (\<lparr>path_exists = True, stat_result = Inr 5, open_result = Inr 5,
           file_text = (\<lambda>i. ''old LoggedIn\<newline>new LoggedIn\<newline>''), read_error = None\<rparr>,
          \<lparr>sendall = (\<lambda>c m. None), getpeername = (\<lambda>c. Inr 10)\<rparr>, [1])]
        \<lparr>clients = {1}, trace = []\<rparr> =
   (\<lparr>current_inode = Some 5,
     file_handle = Some \<lparr>h_inode = 5, h_pos = 26, h_closed = False\<rparr>\<rparr>,
    \<lparr>clients = {1},
     trace = [FileOpen 5, Log INFO (MonitoringInode 5), FileSeekEnd 13, FileReadLine 13 [],
              Sleep monitor_poll_interval, FileReadLine 13 ''new LoggedIn\<newline>'',
              Log INFO (KeywordFound ''new LoggedIn''), Acquire client_lock, RegList,
              SendAll 1 ''Keyword alert: new LoggedIn'', Release client_lock]\<rparr>)"
  by (simp add: watch_log_file_by_inode_def tick_def try_body_def reopen_def read_line_def
        process_line_def fanout_def fanout_client_def alert_message_def strip_def isspace_def
        reset_if_closed_def emit_def sublist_code Let_def)

section \<open>The monitor: recorded inode and open handle\<close>

lemma inode_inv_reset: "handle_inode_inv w \<Longrightarrow> handle_inode_inv (reset_if_closed w)"
  by (auto simp: handle_inode_inv_def reset_if_closed_def split: option.splits)

lemma reopen_inode_inv:
  assumes "reopen f ino (w, s) = (r, w1, s1)" and "handle_inode_inv w"
    and "stat_result f = Inr ino" and "stat_open_agree f"
  shows "handle_inode_inv w1"
proof (cases "current_inode w = Some ino")
  case True
  with assms show ?thesis by (simp add: reopen_def)
next
  case False
  show ?thesis
  proof (cases "open_result f")
    case (Inl e)
    with False assms(1) show ?thesis
      by (cases "file_handle w") (auto simp: reopen_def handle_inode_inv_def)
  next
    case (Inr i)
    with assms(3,4) have "i = ino" by (simp add: stat_open_agree_def)
    with Inr False assms(1) show ?thesis
      by (cases "file_handle w") (auto simp: reopen_def handle_inode_inv_def)
  qed
qed

lemma read_line_inode_inv:
  assumes "read_line f (w, s) = (r, line, w2, s2)" and "handle_inode_inv w"
  shows "handle_inode_inv w2"
proof (cases "file_handle w")
  case None
  with assms show ?thesis by (simp add: read_line_def)
next
  case (Some h)
  show ?thesis
  proof (cases "h_closed h")
    case True
    with Some assms show ?thesis by (simp add: read_line_def)
  next
    case False
    with Some assms show ?thesis
      by (cases "read_error f")
         (auto simp: read_line_def handle_inode_inv_def Let_def split: prod.splits)
  qed
qed

lemma try_body_watcher:
  assumes "try_body kw f nw snap (w, s) = (r, w', s')"
  shows "w' = w \<or>
    (\<exists>ino r1 w1 s1. stat_result f = Inr ino \<and> reopen f ino (w, s) = (r1, w1, s1) \<and>
       (w' = w1 \<or> (\<exists>r2 line s2. read_line f (w1, s1) = (r2, line, w', s2))))"
proof (cases "path_exists f")
  case False
  with assms show ?thesis by (simp add: try_body_def)
next
  case True
  show ?thesis
  proof (cases "stat_result f")
    case (Inl e)
    with True assms show ?thesis by (simp add: try_body_def)
  next
    case (Inr ino)
    obtain r1 w1 s1 where ro: "reopen f ino (w, s) = (r1, w1, s1)"
      by (cases "reopen f ino (w, s)")
    obtain r2 line w2 s2 where rl: "read_line f (w1, s1) = (r2, line, w2, s2)"
      by (cases "read_line f (w1, s1)")
    have "w' = w1 \<or> w' = w2"
      using True Inr ro rl assms
      by (cases r1; cases r2; cases "line = []")
         (auto simp: try_body_def split: prod.splits)
    with Inr ro rl show ?thesis by auto
  qed
qed

lemma try_body_inode_inv:
  assumes "try_body kw f nw snap (w, s) = (r, w', s')" and "handle_inode_inv w"
    and "stat_open_agree f"
  shows "handle_inode_inv w'"
proof -
  from try_body_watcher[OF assms(1)] show ?thesis
  proof
    assume "w' = w"
    with assms(2) show ?thesis by simp
  next
    assume "\<exists>ino r1 w1 s1. stat_result f = Inr ino \<and> reopen f ino (w, s) = (r1, w1, s1) \<and>
       (w' = w1 \<or> (\<exists>r2 line s2. read_line f (w1, s1) = (r2, line, w', s2)))"
    then obtain ino r1 w1 s1 where st: "stat_result f = Inr ino"
      and ro: "reopen f ino (w, s) = (r1, w1, s1)"
      and d: "w' = w1 \<or> (\<exists>r2 line s2. read_line f (w1, s1) = (r2, line, w', s2))"
      by auto
    from reopen_inode_inv[OF ro assms(2) st assms(3)] have i1: "handle_inode_inv w1" .
    from d show ?thesis
    proof
      assume "w' = w1"
      with i1 show ?thesis by simp
    next
      assume "\<exists>r2 line s2. read_line f (w1, s1) = (r2, line, w', s2)"
      then obtain r2 line s2 where "read_line f (w1, s1) = (r2, line, w', s2)" by auto
      from read_line_inode_inv[OF this i1] show ?thesis .
    qed
  qed
qed

lemma tick_inode_inv:
  assumes "handle_inode_inv (fst ws)" and "stat_open_agree f"
  shows "handle_inode_inv (fst (tick kw f nw snap ws))"
proof -
  obtain w s where ws: "ws = (w, s)" by (cases ws)
  obtain r w1 s1 where tb: "try_body kw f nw snap (w, s) = (r, w1, s1)"
    by (cases "try_body kw f nw snap (w, s)")
  from assms ws have "handle_inode_inv w" by simp
  from try_body_inode_inv[OF tb this assms(2)] have "handle_inode_inv (reset_if_closed w1)"
    by (rule inode_inv_reset)
  with ws tb show ?thesis by (simp add: tick_def)
qed

lemma watch_loop_inode_inv:
  "list_all (\<lambda>r. stat_open_agree (fst r)) rounds \<Longrightarrow> handle_inode_inv (fst ws) \<Longrightarrow>
   handle_inode_inv (fst (watch_loop kw rounds ws))"
proof (induction rounds arbitrary: ws)
  case Nil
  then show ?case by simp
next
  case (Cons r rounds)
  obtain f nw snap where r: "r = (f, nw, snap)" by (cases r)
  with Cons.prems have "stat_open_agree f" by simp
  from tick_inode_inv[OF Cons.prems(2) this]
  have "handle_inode_inv (fst (tick kw f nw snap ws))" .
  moreover from Cons.prems have "list_all (\<lambda>r. stat_open_agree (fst r)) rounds" by simp
  ultimately have "handle_inode_inv (fst (watch_loop kw rounds (tick kw f nw snap ws)))"
    using Cons.IH by blast
  with r show ?case by simp
qed

text \<open>
  Claim C9, as stated: after every poll tick, whenever an open handle is present,
  \<open>current_inode\<close> equals the inode of the file actually bound to that handle, not merely
  the inode of whatever file the path named at some earlier stat.

  It fails on the code: line 81 records \<^verbatim>\<open>file_stat.st_ino\<close>, the answer of the
  \<^verbatim>\<open>os.stat\<close> of line 74, while the handle comes from the \<^verbatim>\<open>open\<close> of line 80. When the
  file at the path is replaced between the two calls, the handle is bound to the new file
  (inode 2) and \<open>current_inode\<close> is the old one (inode 1).
\<close>

theorem C9_counterexample:
  "\<not> handle_inode_inv
       (fst (watch_log_file_by_inode ''LoggedIn''
          [(\<lparr>path_exists = True, stat_result = Inr 1, open_result = Inr 2,
             file_text = (\<lambda>i. []), read_error = None\<rparr>,
            \<lparr>sendall = (\<lambda>c m. None), getpeername = (\<lambda>c. Inr 10)\<rparr>, [])]
          \<lparr>clients = {}, trace = []\<rparr>))"
  by (simp add: watch_log_file_by_inode_def tick_def try_body_def reopen_def read_line_def
        reset_if_closed_def emit_def handle_inode_inv_def Let_def)

text \<open>
  Claim C9, amended: provided that in every poll tick the path names the same file at
  \<^verbatim>\<open>os.stat\<close> and at \<^verbatim>\<open>open\<close>, after every poll tick, whenever an open handle is present,
  \<open>current_inode\<close> equals the inode of the file bound to that handle.
\<close>

theorem C9_inode_matches_when_stat_and_open_agree:
  "list_all (\<lambda>r. stat_open_agree (fst r)) rounds \<Longrightarrow>
   handle_inode_inv (fst (watch_log_file_by_inode kw rounds s))"
  unfolding watch_log_file_by_inode_def
  by (rule watch_loop_inode_inv) (simp_all add: handle_inode_inv_def)

theorem C9_inode_matches_when_stat_and_open_agree_witness:
  "list_all (\<lambda>r. stat_open_agree (fst r))
     [(\<lparr>path_exists = True, stat_result = Inr 5, open_result = Inr 5,
        file_text = (\<lambda>i. ''a\<newline>''), read_error = None\<rparr>,
       \<lparr>sendall = (\<lambda>c m. None), getpeername = (\<lambda>c. Inr 10)\<rparr>, []),
      (\<lparr>path_exists = True, stat_result = Inr 6, open_result = Inr 6,
        file_text = (\<lambda>i. []), read_error = None\<rparr>,
       \<lparr>sendall = (\<lambda>c m. None), getpeername = (\<lambda>c. Inr 10)\<rparr>, [])] \<and>
   handle_inode_inv
     (fst (watch_log_file_by_inode ''LoggedIn''
        [(\<lparr>path_exists = True, stat_result = Inr 5, open_result = Inr 5,
           file_text = (\<lambda>i. ''a\<newline>''), read_error = None\<rparr>,
          \<lparr>sendall = (\<lambda>c m. None), getpeername = (\<lambda>c. Inr 10)\<rparr>, []),
         (\<lparr>path_exists = True, stat_result = Inr 6, open_result = Inr 6,
           file_text = (\<lambda>i. []), read_error = None\<rparr>,
          \<lparr>sendall = (\<lambda>c m. None), getpeername = (\<lambda>c. Inr 10)\<rparr>, [])]
        \<lparr>clients = {}, trace = []\<rparr>))"
  using C9_inode_matches_when_stat_and_open_agree
    [of "[(\<lparr>path_exists = True, stat_result = Inr 5, open_result = Inr 5,
           file_text = (\<lambda>i. ''a\<newline>''), read_error = None\<rparr>,
          \<lparr>sendall = (\<lambda>c m. None), getpeername = (\<lambda>c. Inr 10)\<rparr>, []),
         (\<lparr>path_exists = True, stat_result = Inr 6, open_result = Inr 6,
           file_text = (\<lambda>i. []), read_error = None\<rparr>,
          \<lparr>sendall = (\<lambda>c m. None), getpeername = (\<lambda>c. Inr 10)\<rparr>, [])]"
        "''LoggedIn''" "\<lparr>clients = {}, trace = []\<rparr>"]
  by (simp add: stat_open_agree_def)

section \<open>The monitor: alerts\<close>

lemma reopen_sends:
  "reopen f ino (w, s) = (r, w1, s1) \<Longrightarrow> sends (trace s1) = sends (trace s)"
  by (cases "file_handle w"; cases "open_result f"; cases "current_inode w = Some ino")
     (auto simp: reopen_def emit_def sends_append)

lemma read_line_sends:
  "read_line f (w, s) = (r, line, w2, s2) \<Longrightarrow> sends (trace s2) = sends (trace s)"
  by (cases "file_handle w"; cases "read_error f")
     (auto simp: read_line_def emit_def sends_append Let_def split: if_splits prod.splits)

lemma tick_on_line:
  assumes "path_exists f" and "stat_result f = Inr ino"
    and "reopen f ino (w, s) = (None, w1, s1)"
    and "read_line f (w1, s1) = (None, line, w2, s2)" and "line \<noteq> []"
  shows "try_body kw f nw snap (w, s) =
           (fst (process_line kw nw snap line s2), w2, snd (process_line kw nw snap line s2))"
  using assms by (simp add: try_body_def split: prod.splits)

lemma tick_sends:
  "sends (trace (snd (tick kw f nw snap ws))) =
   sends (trace (snd (snd (try_body kw f nw snap ws))))"
  by (cases "try_body kw f nw snap ws"; cases "fst (try_body kw f nw snap ws)")
     (auto simp: tick_def emit_def sends_append)

text \<open>
  The alert pass of a round that reads \<open>line\<close> (the hypotheses). With the keyword in
  the line, the calls of \<^verbatim>\<open>sendall\<close> that the round adds are one pass over the snapshot
  in order, each client once, each with the payload \<^verbatim>\<open>Keyword alert: \<close> followed by the
  trimmed line; the pass covers the whole snapshot when no exception leaves the fan-out.
  Without the keyword the round sends nothing.
\<close>

lemma alert_pass_on_line:
  assumes "path_exists f" and "stat_result f = Inr ino"
    and "reopen f ino (w, s) = (None, w1, s1)"
    and "read_line f (w1, s1) = (None, line, w2, s2)" and "line \<noteq> []"
  shows "(sublist kw line \<longrightarrow>
            (\<exists>n\<le>length snap.
               sends (trace (snd (tick kw f nw snap (w, s)))) =
                 sends (trace s) @ map (\<lambda>c. (c, ''Keyword alert: '' @ strip line)) (take n snap) \<and>
               (fst (try_body kw f nw snap (w, s)) = None \<longrightarrow> n = length snap))) \<and>
         (\<not> sublist kw line \<longrightarrow>
            sends (trace (snd (tick kw f nw snap (w, s)))) = sends (trace s))"
proof -
  from reopen_sends[OF assms(3)] read_line_sends[OF assms(4)]
  have s2: "sends (trace s2) = sends (trace s)" by simp
  note tb = tick_on_line[OF assms, of kw nw snap]
  have ts: "sends (trace (snd (tick kw f nw snap (w, s)))) =
            sends (trace (snd (process_line kw nw snap line s2)))"
    by (simp add: tick_sends tb)
  show ?thesis
  proof (intro conjI impI)
    assume m: "sublist kw line"
    let ?s = "emit (Log INFO (KeywordFound (strip line))) s2"
    let ?msg = "''Keyword alert: '' @ strip line"
    from m have pl: "process_line kw nw snap line s2 = fanout nw Alert ?msg snap ?s"
      by (simp add: process_line_def alert_message_def)
    have e: "sends (trace ?s) = sends (trace s)"
      using s2 by (simp add: emit_def sends_append)
    from fanout_sends[of snap nw Alert ?msg ?s] obtain n where n: "n \<le> length snap"
      "sends (trace (snd (fanout nw Alert ?msg snap ?s))) =
         sends (trace ?s) @ map (\<lambda>c. (c, ?msg)) (take n snap)"
      "fst (fanout nw Alert ?msg snap ?s) = None \<longrightarrow> n = length snap"
      by auto
    with ts pl e tb have
      "n \<le> length snap \<and>
       sends (trace (snd (tick kw f nw snap (w, s)))) =
         sends (trace s) @ map (\<lambda>c. (c, ?msg)) (take n snap) \<and>
       (fst (try_body kw f nw snap (w, s)) = None \<longrightarrow> n = length snap)"
      by simp
    then show "\<exists>n\<le>length snap.
               sends (trace (snd (tick kw f nw snap (w, s)))) =
                 sends (trace s) @ map (\<lambda>c. (c, ?msg)) (take n snap) \<and>
               (fst (try_body kw f nw snap (w, s)) = None \<longrightarrow> n = length snap)"
      by (intro exI[of _ n])
  next
    assume "\<not> sublist kw line"
    then have "process_line kw nw snap line s2 = (None, s2)" by (simp add: process_line_def)
    with ts s2 show "sends (trace (snd (tick kw f nw snap (w, s)))) = sends (trace s)"
      by simp
  qed
qed

lemma alert_pass_example:
  "path_exists \<lparr>path_exists = True, stat_result = Inr 5, open_result = Inr 5,
                 file_text = (\<lambda>i. ''old\<newline>bob LoggedIn LoggedIn \<newline>''), read_error = None\<rparr> \<and>
   stat_result \<lparr>path_exists = True, stat_result = Inr 5, open_result = Inr 5,
                 file_text = (\<lambda>i. ''old\<newline>bob LoggedIn LoggedIn \<newline>''), read_error = None\<rparr> = Inr 5 \<and>
   reopen \<lparr>path_exists = True, stat_result = Inr 5, open_result = Inr 5,
            file_text = (\<lambda>i. ''old\<newline>bob LoggedIn LoggedIn \<newline>''), read_error = None\<rparr> 5
      (\<lparr>current_inode = Some 5, file_handle = Some \<lparr>h_inode = 5, h_pos = 4, h_closed = False\<rparr>\<rparr>,
       \<lparr>clients = {1, 2}, trace = []\<rparr>) =
     (None,
      \<lparr>current_inode = Some 5, file_handle = Some \<lparr>h_inode = 5, h_pos = 4, h_closed = False\<rparr>\<rparr>,
      \<lparr>clients = {1, 2}, trace = []\<rparr>) \<and>
   read_line \<lparr>path_exists = True, stat_result = Inr 5, open_result = Inr 5,
               file_text = (\<lambda>i. ''old\<newline>bob LoggedIn LoggedIn \<newline>''), read_error = None\<rparr>
      (\<lparr>current_inode = Some 5, file_handle = Some \<lparr>h_inode = 5, h_pos = 4, h_closed = False\<rparr>\<rparr>,
       \<lparr>clients = {1, 2}, trace = []\<rparr>) =
     (None, ''bob LoggedIn LoggedIn \<newline>'',
      \<lparr>current_inode = Some 5, file_handle = Some \<lparr>h_inode = 5, h_pos = 27, h_closed = False\<rparr>\<rparr>,
      \<lparr>clients = {1, 2}, trace = [FileReadLine 4 ''bob LoggedIn LoggedIn \<newline>'']\<rparr>) \<and>
   ''bob LoggedIn LoggedIn \<newline>'' \<noteq> [] \<and>
   sublist ''LoggedIn'' ''bob LoggedIn LoggedIn \<newline>'' \<and>
   sends (trace (snd (tick ''LoggedIn''
      \<lparr>path_exists = True, stat_result = Inr 5, open_result = Inr 5,
        file_text = (\<lambda>i. ''old\<newline>bob LoggedIn LoggedIn \<newline>''), read_error = None\<rparr>
      \<lparr>sendall = (\<lambda>c m. None), getpeername = (\<lambda>c. Inr 10)\<rparr> [1, 2]
      (\<lparr>current_inode = Some 5, file_handle = Some \<lparr>h_inode = 5, h_pos = 4, h_closed = False\<rparr>\<rparr>,
       \<lparr>clients = {1, 2}, trace = []\<rparr>)))) =
     [(1, ''Keyword alert: bob LoggedIn LoggedIn''), (2, ''Keyword alert: bob LoggedIn LoggedIn'')]"
proof -
  let ?f = "\<lparr>path_exists = True, stat_result = Inr 5, open_result = Inr 5,
             file_text = (\<lambda>i. ''old\<newline>bob LoggedIn LoggedIn \<newline>''), read_error = None\<rparr>"
  let ?nw = "\<lparr>sendall = (\<lambda>c m. None), getpeername = (\<lambda>c. Inr 10)\<rparr>"
  let ?w = "\<lparr>current_inode = Some 5,
             file_handle = Some \<lparr>h_inode = 5, h_pos = 4, h_closed = False\<rparr>\<rparr>"
  let ?s = "\<lparr>clients = {1, 2}, trace = []\<rparr>"
  let ?line = "''bob LoggedIn LoggedIn \<newline>''"
  let ?w2 = "\<lparr>current_inode = Some 5,
              file_handle = Some \<lparr>h_inode = 5, h_pos = 27, h_closed = False\<rparr>\<rparr>"
  let ?s2 = "\<lparr>clients = {1, 2}, trace = [FileReadLine 4 ?line]\<rparr>"
  have h1: "path_exists ?f" by simp
  have h2: "stat_result ?f = Inr 5" by simp
  have h3: "reopen ?f 5 (?w, ?s) = (None, ?w, ?s)" by (simp add: reopen_def)
  have h4: "read_line ?f (?w, ?s) = (None, ?line, ?w2, ?s2)"
    by (simp add: read_line_def emit_def Let_def)
  have h5: "?line \<noteq> []" by simp
  have m: "sublist ''LoggedIn'' ?line" by (simp add: sublist_code)
  have tb: "fst (try_body ''LoggedIn'' ?f ?nw [1, 2] (?w, ?s)) = None"
    using h3 h4 m
    by (simp add: try_body_def process_line_def fanout_def fanout_client_def emit_def Let_def)
  have st: "strip ?line = ''bob LoggedIn LoggedIn''" by (simp add: strip_def isspace_def)
  from alert_pass_on_line[OF h1 h2 h3 h4 h5, of "''LoggedIn''" "[1, 2]" ?nw] m tb st
  have "sends (trace (snd (tick ''LoggedIn'' ?f ?nw [1, 2] (?w, ?s)))) =
     [(1, ''Keyword alert: bob LoggedIn LoggedIn''), (2, ''Keyword alert: bob LoggedIn LoggedIn'')]"
    by auto
  with h1 h2 h3 h4 h5 m show ?thesis by blast
qed

text \<open>
  Claim C1: for every line the monitor reads, if the line contains the keyword as a
  case-sensitive substring, exactly one alert is broadcast for that line, with payload
  \<^verbatim>\<open>Keyword alert: \<close> followed by the trimmed line.

  The code makes one pass with that payload (\<open>alert_pass_on_line\<close>), but the pass is a
  broadcast only as long as no exception leaves a handler of the fan-out. Here the line
  \<^verbatim>\<open>bob LoggedIn\<close> is read and matches, clients 1 and 2 are registered, the send to
  client 1 raises \<^verbatim>\<open>BrokenPipeError\<close> and \<^verbatim>\<open>getpeername\<close> on that socket raises
  \<^verbatim>\<open>OSError\<close> inside the handler: the pass ends at client 1, the round logs the error
  and sleeps, the line is consumed (the position is past it), and client 2 is never
  sent the alert.
\<close>

theorem C1_alert_pass_ends_where_a_handler_raises:
  "tick ''LoggedIn''
     \<lparr>path_exists = True, stat_result = Inr 5, open_result = Inr 5,
      file_text = (\<lambda>i. ''old\<newline>bob LoggedIn\<newline>''), read_error = None\<rparr>
     \<lparr>sendall = (\<lambda>c m. if c = 1 then Some BrokenPipeError else None),
      getpeername = (\<lambda>c. if c = 1 then Inl OSError else Inr (c + 100))\<rparr>
     [1, 2]
     (\<lparr>current_inode = Some 5, file_handle = Some \<lparr>h_inode = 5, h_pos = 4, h_closed = False\<rparr>\<rparr>,
      \<lparr>clients = {1, 2}, trace = []\<rparr>) =
   (\<lparr>current_inode = Some 5, file_handle = Some \<lparr>h_inode = 5, h_pos = 17, h_closed = False\<rparr>\<rparr>,
    \<lparr>clients = {1, 2},
     trace = [FileReadLine 4 ''bob LoggedIn\<newline>'', Log INFO (KeywordFound ''bob LoggedIn''),
              Acquire client_lock, RegList, SendAll 1 ''Keyword alert: bob LoggedIn'',
              Release client_lock, Log ERROR (WatchError OSError),
              Sleep monitor_poll_interval]\<rparr>)"
  by (simp add: tick_def try_body_def reopen_def read_line_def process_line_def fanout_def
        fanout_client_def alert_message_def strip_def isspace_def reset_if_closed_def
        emit_def sublist_code Let_def)

section \<open>The monitor: errors\<close>

lemma watch_loop_append:
  "watch_loop kw (rounds @ later) ws = watch_loop kw later (watch_loop kw rounds ws)"
proof (induction rounds arbitrary: ws)
  case Nil
  show ?case by simp
next
  case (Cons r rounds)
  obtain f nw snap where r: "r = (f, nw, snap)" by (cases r)
  from Cons[of "tick kw f nw snap ws"] r show ?case by simp
qed

text \<open>
  Claim C7: the monitor loop never exits on error. Any exception raised during a poll
  tick (stat failure, permission or I/O error, an error during the alert fan-out) is
  caught, logged, and followed by a sleep of one poll interval and another iteration; a
  missing file is logged and slept on as well; and if at the end of an iteration the
  handle is found closed, \<open>current_inode\<close> is reset, so that the next tick reopens.

  First conjunct: when the \<^verbatim>\<open>try\<close> block of a round raises, whatever the exception and
  wherever in the run, the loop goes on with the rounds that follow, from the state the
  block left plus the error record and the sleep. Second: the same for a missing file,
  with the warning. Third: the reset. Fourth: each further round of the loop is one run
  of \<open>tick\<close> on the state the earlier rounds left.
\<close>

theorem C7_monitor_catches_logs_sleeps_and_goes_on:
  "(try_body kw f nw snap (watch_loop kw rounds ws) = (Some e, w1, s1) \<longrightarrow>
      watch_loop kw (rounds @ (f, nw, snap) # later) ws =
        watch_loop kw later
          (reset_if_closed w1,
           s1\<lparr>trace := trace s1 @ [Log ERROR (WatchError e), Sleep monitor_poll_interval]\<rparr>)) \<and>
   (\<not> path_exists g \<and> watch_loop kw' rounds' ws' = (v, t) \<longrightarrow>
      watch_loop kw' (rounds' @ (g, nw', snap') # later') ws' =
        watch_loop kw' later'
          (reset_if_closed v,
           t\<lparr>trace := trace t @ [Log WARNING LogFileNotFound, Sleep monitor_poll_interval]\<rparr>)) \<and>
   (file_handle (fst (tick k d n sn x)) = Some h \<and> h_closed h \<longrightarrow>
      current_inode (fst (tick k d n sn x)) = None) \<and>
   watch_loop K (R @ [(F, N, S)]) W = tick K F N S (watch_loop K R W)"
proof (intro conjI impI)
  assume "try_body kw f nw snap (watch_loop kw rounds ws) = (Some e, w1, s1)"
  then have "tick kw f nw snap (watch_loop kw rounds ws) =
        (reset_if_closed w1,
         s1\<lparr>trace := trace s1 @ [Log ERROR (WatchError e), Sleep monitor_poll_interval]\<rparr>)"
    by (simp add: tick_def emit_def)
  then show "watch_loop kw (rounds @ (f, nw, snap) # later) ws =
        watch_loop kw later
          (reset_if_closed w1,
           s1\<lparr>trace := trace s1 @ [Log ERROR (WatchError e), Sleep monitor_poll_interval]\<rparr>)"
    by (simp add: watch_loop_append)
next
  assume a: "\<not> path_exists g \<and> watch_loop kw' rounds' ws' = (v, t)"
  then have "tick kw' g nw' snap' (v, t) =
        (reset_if_closed v,
         t\<lparr>trace := trace t @ [Log WARNING LogFileNotFound, Sleep monitor_poll_interval]\<rparr>)"
    by (simp add: tick_def try_body_def emit_def)
  with a show "watch_loop kw' (rounds' @ (g, nw', snap') # later') ws' =
        watch_loop kw' later'
          (reset_if_closed v,
           t\<lparr>trace := trace t @ [Log WARNING LogFileNotFound, Sleep monitor_poll_interval]\<rparr>)"
    by (simp add: watch_loop_append)
next
  assume a: "file_handle (fst (tick k d n sn x)) = Some h \<and> h_closed h"
  obtain r w1 s1 where tb: "try_body k d n sn x = (r, w1, s1)"
    by (cases "try_body k d n sn x")
  then have "fst (tick k d n sn x) = reset_if_closed w1" by (simp add: tick_def)
  with a show "current_inode (fst (tick k d n sn x)) = None"
    by (cases "file_handle w1") (auto simp: reset_if_closed_def split: if_splits)
next
  show "watch_loop K (R @ [(F, N, S)]) W = tick K F N S (watch_loop K R W)"
    by (simp add: watch_loop_append)
qed

theorem C7_monitor_catches_logs_sleeps_and_goes_on_witness:
  "try_body ''LoggedIn''
      \<lparr>path_exists = True, stat_result = Inr 5, open_result = Inr 5,
       file_text = (\<lambda>i. ''old\<newline>bob LoggedIn\<newline>''), read_error = None\<rparr>
      \<lparr>sendall = (\<lambda>c m. if c = 1 then Some BrokenPipeError else None),
       getpeername = (\<lambda>c. if c = 1 then Inl OSError else Inr (c + 100))\<rparr>
      [1, 2]
      (watch_loop ''LoggedIn'' []
        (\<lparr>current_inode = Some 5,
          file_handle = Some \<lparr>h_inode = 5, h_pos = 4, h_closed = False\<rparr>\<rparr>,
         \<lparr>clients = {1, 2}, trace = []\<rparr>)) =
     (Some OSError,
      \<lparr>current_inode = Some 5, file_handle = Some \<lparr>h_inode = 5, h_pos = 17, h_closed = False\<rparr>\<rparr>,
      \<lparr>clients = {1, 2},
       trace = [FileReadLine 4 ''bob LoggedIn\<newline>'', Log INFO (KeywordFound ''bob LoggedIn''),
                Acquire client_lock, RegList, SendAll 1 ''Keyword alert: bob LoggedIn'',
                Release client_lock]\<rparr>) \<and>
   watch_loop ''LoggedIn''
      ([] @
       (\<lparr>path_exists = True, stat_result = Inr 5, open_result = Inr 5,
         file_text = (\<lambda>i. ''old\<newline>bob LoggedIn\<newline>''), read_error = None\<rparr>,
        \<lparr>sendall = (\<lambda>c m. if c = 1 then Some BrokenPipeError else None),
         getpeername = (\<lambda>c. if c = 1 then Inl OSError else Inr (c + 100))\<rparr>,
        [1, 2]) #
       [(\<lparr>path_exists = False, stat_result = Inl FileNotFoundError,
          open_result = Inl FileNotFoundError, file_text = (\<lambda>i. []), read_error = None\<rparr>,
         \<lparr>sendall = (\<lambda>c m. None), getpeername = (\<lambda>c. Inr 10)\<rparr>, [])])
      (\<lparr>current_inode = Some 5,
        file_handle = Some \<lparr>h_inode = 5, h_pos = 4, h_closed = False\<rparr>\<rparr>,
       \<lparr>clients = {1, 2}, trace = []\<rparr>) =
     (\<lparr>current_inode = Some 5, file_handle = Some \<lparr>h_inode = 5, h_pos = 17, h_closed = False\<rparr>\<rparr>,
      \<lparr>clients = {1, 2},
       trace = [FileReadLine 4 ''bob LoggedIn\<newline>'', Log INFO (KeywordFound ''bob LoggedIn''),
                Acquire client_lock, RegList, SendAll 1 ''Keyword alert: bob LoggedIn'',
                Release client_lock, Log ERROR (WatchError OSError),
                Sleep monitor_poll_interval, Log WARNING LogFileNotFound,
                Sleep monitor_poll_interval]\<rparr>) \<and>
   \<not> path_exists \<lparr>path_exists = False, stat_result = Inl FileNotFoundError,
                   open_result = Inl FileNotFoundError, file_text = (\<lambda>i. []),
                   read_error = None\<rparr> \<and>
   tick ''LoggedIn''
      \<lparr>path_exists = True, stat_result = Inr 2, open_result = Inl PermissionError,
       file_text = (\<lambda>i. []), read_error = None\<rparr>
      \<lparr>sendall = (\<lambda>c m. None), getpeername = (\<lambda>c. Inr 10)\<rparr> []
      (\<lparr>current_inode = Some 1, file_handle = Some \<lparr>h_inode = 1, h_pos = 0, h_closed = False\<rparr>\<rparr>,
       \<lparr>clients = {}, trace = []\<rparr>) =
     (\<lparr>current_inode = None, file_handle = Some \<lparr>h_inode = 1, h_pos = 0, h_closed = True\<rparr>\<rparr>,
      \<lparr>clients = {},
       trace = [Log INFO FileReplaced, FileClose, Log ERROR (WatchError PermissionError),
                Sleep monitor_poll_interval]\<rparr>)"
proof -
  let ?f = "\<lparr>path_exists = True, stat_result = Inr 5, open_result = Inr 5,
             file_text = (\<lambda>i. ''old\<newline>bob LoggedIn\<newline>''), read_error = None\<rparr>"
  let ?g = "\<lparr>path_exists = False, stat_result = Inl FileNotFoundError,
             open_result = Inl FileNotFoundError, file_text = (\<lambda>i. []), read_error = None\<rparr>"
  let ?d = "\<lparr>path_exists = True, stat_result = Inr 2, open_result = Inl PermissionError,
             file_text = (\<lambda>i. []), read_error = None\<rparr>"
  let ?bad = "\<lparr>sendall = (\<lambda>c m. if c = 1 then Some BrokenPipeError else None),
               getpeername = (\<lambda>c. if c = 1 then Inl OSError else Inr (c + 100))\<rparr>"
  let ?nw = "\<lparr>sendall = (\<lambda>c m. None), getpeername = (\<lambda>c. Inr 10)\<rparr>"
  let ?w0 = "\<lparr>current_inode = Some 5,
              file_handle = Some \<lparr>h_inode = 5, h_pos = 4, h_closed = False\<rparr>\<rparr>"
  let ?w1 = "\<lparr>current_inode = Some 5,
              file_handle = Some \<lparr>h_inode = 5, h_pos = 17, h_closed = False\<rparr>\<rparr>"
  let ?s0 = "\<lparr>clients = {1, 2}, trace = []\<rparr>"
  let ?s1 = "\<lparr>clients = {1, 2},
       trace = [FileReadLine 4 ''bob LoggedIn\<newline>'', Log INFO (KeywordFound ''bob LoggedIn''),
                Acquire client_lock, RegList, SendAll 1 ''Keyword alert: bob LoggedIn'',
                Release client_lock]\<rparr>"
  let ?x = "(\<lparr>current_inode = Some 1,
              file_handle = Some \<lparr>h_inode = 1, h_pos = 0, h_closed = False\<rparr>\<rparr>,
             \<lparr>clients = {}, trace = []\<rparr>)"
  let ?h = "\<lparr>h_inode = 1, h_pos = 0, h_closed = True\<rparr>"
  let ?e = "\<lparr>clients = {}, trace = []\<rparr>"
  let ?i = "\<lparr>current_inode = None, file_handle = None\<rparr>"
  have h1: "try_body ''LoggedIn'' ?f ?bad [1, 2] (watch_loop ''LoggedIn'' [] (?w0, ?s0)) =
              (Some OSError, ?w1, ?s1)"
    by (simp add: try_body_def reopen_def read_line_def process_line_def fanout_def
          fanout_client_def alert_message_def strip_def isspace_def emit_def sublist_code
          Let_def)
  have h2: "\<not> path_exists ?g \<and> watch_loop ''LoggedIn'' [] (?i, ?e) = (?i, ?e)" by simp
  have t3: "tick ''LoggedIn'' ?d ?nw [] ?x =
     (\<lparr>current_inode = None, file_handle = Some ?h\<rparr>,
      \<lparr>clients = {},
       trace = [Log INFO FileReplaced, FileClose, Log ERROR (WatchError PermissionError),
                Sleep monitor_poll_interval]\<rparr>)"
    by (simp add: tick_def try_body_def reopen_def reset_if_closed_def emit_def)
  then have h3: "file_handle (fst (tick ''LoggedIn'' ?d ?nw [] ?x)) = Some ?h \<and> h_closed ?h"
    by simp
  have r1: "reset_if_closed ?w1 = ?w1" by (simp add: reset_if_closed_def)
  have l: "watch_loop ''LoggedIn'' [(?g, ?nw, [])]
             (?w1, ?s1\<lparr>trace := trace ?s1 @ [Log ERROR (WatchError OSError),
                                               Sleep monitor_poll_interval]\<rparr>) =
           (?w1, \<lparr>clients = {1, 2},
             trace = [FileReadLine 4 ''bob LoggedIn\<newline>'', Log INFO (KeywordFound ''bob LoggedIn''),
                Acquire client_lock, RegList, SendAll 1 ''Keyword alert: bob LoggedIn'',
                Release client_lock, Log ERROR (WatchError OSError),
                Sleep monitor_poll_interval, Log WARNING LogFileNotFound,
                Sleep monitor_poll_interval]\<rparr>)"
    by (simp add: tick_def try_body_def reset_if_closed_def emit_def)
  from C7_monitor_catches_logs_sleeps_and_goes_on[where kw = "''LoggedIn''" and f = ?f and nw = ?bad and snap = "[1, 2]"
      and rounds = "[]" and ws = "(?w0, ?s0)" and e = OSError and ?w1.0 = ?w1 and ?s1.0 = ?s1
      and later = "[(?g, ?nw, [])]"
      and g = ?g and kw' = "''LoggedIn''" and rounds' = "[]" and ws' = "(?i, ?e)"
      and v = ?i and t = ?e and nw' = ?nw and snap' = "[]" and later' = "[]"
      and k = "''LoggedIn''" and d = ?d and n = ?nw and sn = "[]" and x = ?x and h = ?h
      and K = "''LoggedIn''" and R = "[]" and F = ?g and N = ?nw and S = "[]" and W = "(?i, ?e)"]
    h1 h2 h3
  have "watch_loop ''LoggedIn'' ([] @ (?f, ?bad, [1, 2]) # [(?g, ?nw, [])]) (?w0, ?s0) =
          watch_loop ''LoggedIn'' [(?g, ?nw, [])]
            (reset_if_closed ?w1,
             ?s1\<lparr>trace := trace ?s1 @ [Log ERROR (WatchError OSError),
                                       Sleep monitor_poll_interval]\<rparr>)"
    by blast
  with r1 l have "watch_loop ''LoggedIn'' ([] @ (?f, ?bad, [1, 2]) # [(?g, ?nw, [])]) (?w0, ?s0) =
           (?w1, \<lparr>clients = {1, 2},
             trace = [FileReadLine 4 ''bob LoggedIn\<newline>'', Log INFO (KeywordFound ''bob LoggedIn''),
                Acquire client_lock, RegList, SendAll 1 ''Keyword alert: bob LoggedIn'',
                Release client_lock, Log ERROR (WatchError OSError),
                Sleep monitor_poll_interval, Log WARNING LogFileNotFound,
                Sleep monitor_poll_interval]\<rparr>)"
    by simp
  with h1 h2 t3 show ?thesis by blast
qed

end
